theory Spec2Isabelle
  imports Main "HOL-Library.Word" "HOL-Library.AList"
begin

section \<open>Go values as the normalizer sees them\<close>

text \<open>
  \<^verbatim>\<open>internal.Normalize\<close> takes an \<^verbatim>\<open>interface{}\<close> and inspects it twice: first by a type
  switch on its dynamic type, then through \<^verbatim>\<open>reflect\<close> by its kind. The embedding keeps
  both views. \<open>kind\<close> is \<^verbatim>\<open>reflect.Kind\<close>; the small enumerations name the widths of
  the numeric types and the two sequence types.
\<close>

datatype kind =
    InvalidK | BoolK | IntK | Int8K | Int16K | Int32K | Int64K
  | UintK | Uint8K | Uint16K | Uint32K | Uint64K | UintptrK
  | Float32K | Float64K | Complex64K | Complex128K
  | ArrayK | ChanK | FuncK | InterfaceK | MapK | PtrK | SliceK | StringK | StructK
  | UnsafePointerK

datatype uintkind = UintT | Uint8T | Uint16T | Uint32T | Uint64T | UintptrT
datatype intkind = IntT | Int8T | Int16T | Int32T | Int64T
datatype floatkind = Float32T | Float64T
datatype seqkind = SliceT | ArrayT
datatype otherkind = Complex64T | Complex128T | ChanT | FuncT | UnsafePointerT

text \<open>A \<^verbatim>\<open>time.Time\<close>, as a count of nanoseconds.\<close>

datatype instant = Instant int

text \<open>
  Errors are values. \<open>Error\<close> is an \<^verbatim>\<open>error\<close> that a function returns, \<open>Panic\<close> a
  run-time panic that unwinds through every caller: \<^verbatim>\<open>Document.Set\<close> swallows the
  first and not the second. \<open>External n\<close> is an error made outside this code (by a
  \<^verbatim>\<open>MarshalBinary\<close> method or by the msgpack codec); \<open>Wrapped\<close> is
  \<^verbatim>\<open>fmt.Errorf("...: %w", err)\<close>.
\<close>

datatype error = MapKeyNotString | InvalidDtype | External nat | Wrapped string error
datatype panic = NilDereference | NilMapAssign | PanicError error | PanicMsg string
datatype failure = Error error | Panic panic

type_synonym 'a result = "failure + 'a"

text \<open>
  \<open>gval\<close> is the content of an \<^verbatim>\<open>interface{}\<close>:
  \<^item> \<open>Nil\<close> the nil interface; \<open>Time\<close> a \<^verbatim>\<open>time.Time\<close>; \<open>Opaque v\<close> an
    \<^verbatim>\<open>internal.Value{V: v}\<close>; \<open>TimePtr\<close> a \<^verbatim>\<open>*time.Time\<close> (\<open>None\<close> when nil);
  \<^item> \<open>Marshaler v r\<close> the value \<open>v\<close> of a type that implements
    \<^verbatim>\<open>encoding.BinaryMarshaler\<close>, with \<open>r\<close> what its \<^verbatim>\<open>MarshalBinary()\<close> does;
  \<^item> \<open>Pointer\<close> a pointer of any other type (\<open>None\<close> when nil);
  \<^item> \<open>UintV\<close>, \<open>IntV\<close>, \<open>FloatV\<close> a number of the given width, with the 64 bits that
    \<^verbatim>\<open>reflect.Value.Uint()\<close>, \<^verbatim>\<open>Int()\<close> and \<^verbatim>\<open>Float()\<close> report for it (a float by its
    IEEE 754 bit pattern);
  \<^item> \<open>Seq sk ek xs\<close> a slice or array whose element type has kind \<open>ek\<close>;
  \<^item> \<open>Object\<close> a \<^verbatim>\<open>map[string]interface{}\<close>, exactly that type, the one the type
    assertions of the code ask for; \<open>MapV kk es\<close> a map of any other type, with
    key kind \<open>kk\<close>. Go maps are unordered and their keys unique: the model keeps the
    entries in a list and writes \<^verbatim>\<open>m[k] = v\<close> as \<open>AList.update k v m\<close>;
  \<^item> \<open>StructV\<close> a struct of any other type, by its fields in declaration order;
  \<^item> \<open>Other\<close> a value of one of the kinds the normalizer has no case for.

  \<open>rvalue\<close> is a \<^verbatim>\<open>reflect.Value\<close> obtained from a field, an element or a pointer:
  \<open>Iface v\<close> when the static type there is an interface type (its kind is
  \<^verbatim>\<open>reflect.Interface\<close>), \<open>Concrete v\<close> otherwise. \<open>StructField\<close> pairs what
  \<^verbatim>\<open>reflect.StructField\<close> tells about a field (\<open>Tag\<close> being the value of its
  \<^verbatim>\<open>clover\<close> key) with the field's value.
\<close>

datatype gval =
    Nil
  | Time instant
  | Opaque gval
  | TimePtr "instant option"
  | Marshaler gval "failure + 8 word list"
  | Pointer "rvalue option"
  | UintV uintkind "64 word"
  | IntV intkind "64 word"
  | FloatV floatkind "64 word"
  | Str string
  | Boolean bool
  | Seq seqkind kind "rvalue list"
  | MapV kind "(gval \<times> rvalue) list"
  | Object "(string \<times> gval) list"
  | StructV "StructField list"
  | Other otherkind
and rvalue = Concrete gval | Iface gval
and StructField =
  StructField (PkgPath: string) (Name: string) (Tag: string) (Anonymous: bool) (fvalue: rvalue)

type_synonym obj = "(string \<times> gval) list"

section \<open>The reflect operations the normalizer uses\<close>

fun uintkind_kind :: "uintkind \<Rightarrow> kind" where
  "uintkind_kind UintT = UintK"
| "uintkind_kind Uint8T = Uint8K"
| "uintkind_kind Uint16T = Uint16K"
| "uintkind_kind Uint32T = Uint32K"
| "uintkind_kind Uint64T = Uint64K"
| "uintkind_kind UintptrT = UintptrK"

fun intkind_kind :: "intkind \<Rightarrow> kind" where
  "intkind_kind IntT = IntK"
| "intkind_kind Int8T = Int8K"
| "intkind_kind Int16T = Int16K"
| "intkind_kind Int32T = Int32K"
| "intkind_kind Int64T = Int64K"

fun floatkind_kind :: "floatkind \<Rightarrow> kind" where
  "floatkind_kind Float32T = Float32K"
| "floatkind_kind Float64T = Float64K"

fun seqkind_kind :: "seqkind \<Rightarrow> kind" where
  "seqkind_kind SliceT = SliceK"
| "seqkind_kind ArrayT = ArrayK"

fun otherkind_kind :: "otherkind \<Rightarrow> kind" where
  "otherkind_kind Complex64T = Complex64K"
| "otherkind_kind Complex128T = Complex128K"
| "otherkind_kind ChanT = ChanK"
| "otherkind_kind FuncT = FuncK"
| "otherkind_kind UnsafePointerT = UnsafePointerK"

text \<open>
  \<open>underlying\<close> looks through the \<open>Marshaler\<close> mark: implementing an interface does
  not change what \<^verbatim>\<open>reflect\<close> reports about a value.
\<close>

fun underlying :: "gval \<Rightarrow> gval" where
  "underlying (Marshaler v r) = underlying v"
| "underlying v = v"

fun kind_of :: "gval \<Rightarrow> kind" where
  "kind_of Nil = InvalidK"
| "kind_of (Time t) = StructK"
| "kind_of (Opaque v) = StructK"
| "kind_of (TimePtr p) = PtrK"
| "kind_of (Marshaler v r) = kind_of v"
| "kind_of (Pointer p) = PtrK"
| "kind_of (UintV k w) = uintkind_kind k"
| "kind_of (IntV k w) = intkind_kind k"
| "kind_of (FloatV k w) = floatkind_kind k"
| "kind_of (Str s) = StringK"
| "kind_of (Boolean b) = BoolK"
| "kind_of (Seq sk ek xs) = seqkind_kind sk"
| "kind_of (MapV kk es) = MapK"
| "kind_of (Object es) = MapK"
| "kind_of (StructV fs) = StructK"
| "kind_of (Other k) = otherkind_kind k"

text \<open>
  \<^verbatim>\<open>Kind()\<close>, \<^verbatim>\<open>Interface()\<close>, \<^verbatim>\<open>IsNil()\<close> and \<^verbatim>\<open>Elem()\<close> of a \<^verbatim>\<open>reflect.Value\<close>.
  \<^verbatim>\<open>time.Time\<close> and \<^verbatim>\<open>internal.Value\<close> are structs, \<^verbatim>\<open>*time.Time\<close> is a pointer.
\<close>

fun Kind :: "rvalue \<Rightarrow> kind" where
  "Kind (Concrete v) = kind_of v"
| "Kind (Iface v) = InterfaceK"

fun Interface_of :: "rvalue \<Rightarrow> gval" where
  "Interface_of (Concrete v) = v"
| "Interface_of (Iface v) = v"

fun IsNil :: "rvalue \<Rightarrow> bool" where
  "IsNil (Iface v) = (v = Nil)"
| "IsNil (Concrete v) =
     (case underlying v of Pointer None \<Rightarrow> True | TimePtr None \<Rightarrow> True | _ \<Rightarrow> False)"

fun Elem :: "rvalue \<Rightarrow> rvalue" where
  "Elem (Iface v) = Concrete v"
| "Elem (Concrete v) =
     (case underlying v of
        Pointer (Some x) \<Rightarrow> x
      | TimePtr (Some t) \<Rightarrow> Concrete (Time t)
      | _ \<Rightarrow> Concrete v)"

text \<open>
  \<^verbatim>\<open>getElemValueAndType\<close> follows pointers while the value is a non-nil pointer:
  \<^verbatim>\<open>for rt.Kind() == reflect.Ptr && !rv.IsNil() { rt = rt.Elem(); rv = rv.Elem() }\<close>.
  The type it returns is the type of the value it returns, so the model returns the
  value alone. The loop ends because every step removes a pointer.
\<close>

lemma size_underlying: "size (underlying v) \<le> size v"
  by (induction v rule: underlying.induct) auto

lemma Elem_size: "size (Elem rv) \<le> size rv"
proof (cases rv)
  case (Concrete v)
  have le: "size (underlying v) \<le> size v" by (rule size_underlying)
  show ?thesis
  proof (cases "underlying v")
    case (Pointer p)
    with le Concrete show ?thesis by (cases p) auto
  next
    case (TimePtr p)
    with le Concrete show ?thesis by (cases p) auto
  qed (use Concrete in auto)
next
  case (Iface v)
  then show ?thesis by simp
qed

lemma scalar_kind_not_Ptr [simp]:
  "uintkind_kind uk \<noteq> PtrK \<and> intkind_kind ik \<noteq> PtrK \<and> floatkind_kind fk \<noteq> PtrK
    \<and> seqkind_kind sk \<noteq> PtrK \<and> otherkind_kind ok \<noteq> PtrK"
  by (cases uk; simp, cases ik; simp, cases fk; simp, cases sk; simp, cases ok; simp)

lemma underlying_not_Marshaler: "underlying v \<noteq> Marshaler x r"
  by (induction v rule: underlying.induct) auto

lemma kind_of_underlying: "kind_of (underlying v) = kind_of v"
  by (induction v rule: underlying.induct) auto

lemma Elem_smaller:
  assumes "Kind rv = PtrK" and "\<not> IsNil rv"
  shows "2 * size (Elem rv) + (if Kind (Elem rv) = PtrK then 1 else 0)
       < 2 * size rv + (if Kind rv = PtrK then 1 else 0)"
proof (cases rv)
  case (Concrete v)
  have le: "size (underlying v) \<le> size v" by (rule size_underlying)
  have k: "kind_of (underlying v) = PtrK"
    using assms(1) Concrete by (simp add: kind_of_underlying)
  show ?thesis
  proof (cases "underlying v")
    case (Pointer p)
    with assms(2) Concrete obtain x where "p = Some x" by (cases p) auto
    with Pointer le Concrete assms(1) show ?thesis by simp
  next
    case (TimePtr p)
    with assms(2) Concrete obtain t where "p = Some t" by (cases p) auto
    with TimePtr le Concrete assms(1) show ?thesis by simp
  qed (use k in \<open>auto simp: scalar_kind_not_Ptr underlying_not_Marshaler\<close>)
next
  case (Iface v)
  with assms(1) show ?thesis by simp
qed

function getElemValueAndType :: "rvalue \<Rightarrow> rvalue" where
  "getElemValueAndType rv =
     (if Kind rv = PtrK \<and> \<not> IsNil rv then getElemValueAndType (Elem rv) else rv)"
  by pat_completeness auto
termination
  by (relation "measure (\<lambda>rv. 2 * size rv + (if Kind rv = PtrK then 1 else 0))")
     (use Elem_smaller in auto)

declare getElemValueAndType.simps [simp del]

text \<open>\<^verbatim>\<open>strings.Split(s, sep)\<close> for a separator of one character.\<close>

fun split_on :: "char \<Rightarrow> string \<Rightarrow> string list" where
  "split_on sep [] = [[]]"
| "split_on sep (c # cs) =
     (if c = sep then [] # split_on sep cs
      else (case split_on sep cs of [] \<Rightarrow> [[c]] | seg # segs \<Rightarrow> (c # seg) # segs))"

text \<open>
  \<^verbatim>\<open>processStructTag\<close>: the name is the first comma-separated part of the tag, and
  \<^verbatim>\<open>omitempty\<close> counts only as the second part.
\<close>

definition processStructTag :: "string \<Rightarrow> string \<times> bool" where
  "processStructTag tagStr =
     (let tags = split_on CHR '','' tagStr;
          name = hd tags;
          omitempty = (length tags > 1 \<and> tags ! 1 = ''omitempty'')
      in (name, omitempty))"

text \<open>
  \<^verbatim>\<open>Len()\<close>, \<^verbatim>\<open>Bool()\<close>, \<^verbatim>\<open>Int()\<close>, \<^verbatim>\<open>Uint()\<close>, \<^verbatim>\<open>Float()\<close> and \<^verbatim>\<open>String()\<close>. The code
  calls each only on a value of a matching kind; the other equations make the model
  total.
\<close>

fun Len :: "rvalue \<Rightarrow> nat" where
  "Len (Iface v) = 0"
| "Len (Concrete v) =
     (case underlying v of
        Seq sk ek xs \<Rightarrow> length xs
      | MapV kk es \<Rightarrow> length es
      | Object es \<Rightarrow> length es
      | Str s \<Rightarrow> length s
      | _ \<Rightarrow> 0)"

fun Bool_of :: "rvalue \<Rightarrow> bool" where
  "Bool_of (Iface v) = False"
| "Bool_of (Concrete v) = (case underlying v of Boolean b \<Rightarrow> b | _ \<Rightarrow> False)"

fun Int_of :: "rvalue \<Rightarrow> 64 word" where
  "Int_of (Iface v) = 0"
| "Int_of (Concrete v) = (case underlying v of IntV k w \<Rightarrow> w | _ \<Rightarrow> 0)"

fun Uint_of :: "rvalue \<Rightarrow> 64 word" where
  "Uint_of (Iface v) = 0"
| "Uint_of (Concrete v) = (case underlying v of UintV k w \<Rightarrow> w | _ \<Rightarrow> 0)"

fun Float_of :: "rvalue \<Rightarrow> 64 word" where
  "Float_of (Iface v) = 0"
| "Float_of (Concrete v) = (case underlying v of FloatV k w \<Rightarrow> w | _ \<Rightarrow> 0)"

fun String_of :: "rvalue \<Rightarrow> string" where
  "String_of (Iface v) = ''<interface Value>''"
| "String_of (Concrete v) = (case underlying v of Str s \<Rightarrow> s | _ \<Rightarrow> ''<Value>'')"

text \<open>\<^verbatim>\<open>v.Float() == 0\<close> holds of the two IEEE 754 zeros.\<close>

definition float_is_zero :: "64 word \<Rightarrow> bool" where
  "float_is_zero w = (w = 0 \<or> w = 0x8000000000000000)"

text \<open>
  \<^verbatim>\<open>isEmptyValue\<close>, case by case. A struct is never empty, and an array is empty only
  when its length is 0.
\<close>

definition isEmptyValue :: "rvalue \<Rightarrow> bool" where
  "isEmptyValue v =
     (let k = Kind v in
      if k \<in> {ArrayK, MapK, SliceK, StringK} then Len v = 0
      else if k = BoolK then \<not> Bool_of v
      else if k \<in> {IntK, Int8K, Int16K, Int32K, Int64K} then Int_of v = 0
      else if k \<in> {UintK, Uint8K, Uint16K, Uint32K, Uint64K, UintptrK} then Uint_of v = 0
      else if k \<in> {Float32K, Float64K} then float_is_zero (Float_of v)
      else if k \<in> {InterfaceK, PtrK} then IsNil v
      else False)"

text \<open>
  The fields of a struct (\<^verbatim>\<open>NumField\<close>, \<^verbatim>\<open>Type().Field(i)\<close>, \<^verbatim>\<open>Field(i)\<close>), the elements
  of a sequence, the element and key kinds, and the entries of a map (\<^verbatim>\<open>MapKeys\<close>,
  \<^verbatim>\<open>MapIndex\<close>). \<^verbatim>\<open>internal.Value\<close> has the one exported field \<^verbatim>\<open>V interface{}\<close>;
  every field of \<^verbatim>\<open>time.Time\<close> is unexported, so \<^verbatim>\<open>normalizeStruct\<close> skips them all and
  the model lists none.
\<close>

fun struct_fields :: "rvalue \<Rightarrow> StructField list" where
  "struct_fields (Iface v) = []"
| "struct_fields (Concrete v) =
     (case underlying v of
        StructV fs \<Rightarrow> fs
      | Opaque x \<Rightarrow> [StructField [] ''V'' [] False (Iface x)]
      | _ \<Rightarrow> [])"

fun seq_elems :: "rvalue \<Rightarrow> rvalue list" where
  "seq_elems (Iface v) = []"
| "seq_elems (Concrete v) = (case underlying v of Seq sk ek xs \<Rightarrow> xs | _ \<Rightarrow> [])"

fun elem_kind :: "rvalue \<Rightarrow> kind" where
  "elem_kind (Iface v) = InvalidK"
| "elem_kind (Concrete v) = (case underlying v of Seq sk ek xs \<Rightarrow> ek | _ \<Rightarrow> InvalidK)"

fun key_kind :: "rvalue \<Rightarrow> kind" where
  "key_kind (Iface v) = InvalidK"
| "key_kind (Concrete v) =
     (case underlying v of MapV kk es \<Rightarrow> kk | Object es \<Rightarrow> StringK | _ \<Rightarrow> InvalidK)"

fun map_entries :: "rvalue \<Rightarrow> (rvalue \<times> rvalue) list" where
  "map_entries (Iface v) = []"
| "map_entries (Concrete v) =
     (case underlying v of
        MapV kk es \<Rightarrow> map (\<lambda>(k, x). (Concrete k, x)) es
      | Object es \<Rightarrow> map (\<lambda>(k, x). (Concrete (Str k), Iface x)) es
      | _ \<Rightarrow> [])"

text \<open>The \<^verbatim>\<open>[]byte\<close> with the given content.\<close>

definition bytes_value :: "8 word list \<Rightarrow> gval" where
  "bytes_value bs = Seq SliceT Uint8K (map (\<lambda>b. Concrete (UintV Uint8T (ucast b))) bs)"

text \<open>Measures for the termination of the normalizer.\<close>

definition fields_weight :: "StructField list \<Rightarrow> nat" where
  "fields_weight fs = sum_list (map (\<lambda>f. size (fvalue f)) fs)"

definition elems_weight :: "rvalue list \<Rightarrow> nat" where
  "elems_weight xs = sum_list (map size xs)"

definition entries_weight :: "(rvalue \<times> rvalue) list \<Rightarrow> nat" where
  "entries_weight es = sum_list (map (\<lambda>e. size (snd e)) es)"

lemma getElem_size: "size (getElemValueAndType rv) \<le> size rv"
proof (induction rv rule: getElemValueAndType.induct)
  case (1 rv)
  show ?case
  proof (cases "Kind rv = PtrK \<and> \<not> IsNil rv")
    case True
    with 1 have "size (getElemValueAndType (Elem rv)) \<le> size (Elem rv)" by simp
    also have "\<dots> \<le> size rv" by (rule Elem_size)
    finally show ?thesis using True by (subst getElemValueAndType.simps) simp
  next
    case False
    then show ?thesis by (subst getElemValueAndType.simps) auto
  qed
qed

lemma fields_weight_le: "fields_weight fs \<le> size_list size fs"
proof (induction fs)
  case (Cons f fs) then show ?case by (cases f) (simp add: fields_weight_def)
qed (simp add: fields_weight_def)

lemma elems_weight_le: "elems_weight xs \<le> size_list size xs"
  by (induction xs) (simp_all add: elems_weight_def)

lemma entries_weight_MapV:
  "entries_weight (map (\<lambda>(k, x). (Concrete k, x)) es) \<le> size_list (size_prod size size) es"
  by (induction es) (auto simp: entries_weight_def)

lemma entries_weight_Object:
  "entries_weight (map (\<lambda>(k, x). (Concrete (Str k), Iface x)) es)
     \<le> size_list (size_prod (\<lambda>x. 0) size) es"
  by (induction es) (auto simp: entries_weight_def)

lemma struct_fields_weight: "fields_weight (struct_fields rv) + 1 \<le> size rv"
proof (cases rv)
  case (Concrete v)
  have le: "size (underlying v) \<le> size v" by (rule size_underlying)
  show ?thesis
  proof (cases "underlying v")
    case (StructV fs)
    with le fields_weight_le [of fs] Concrete show ?thesis by simp
  next
    case (Opaque x)
    with le Concrete show ?thesis by (simp add: fields_weight_def)
  qed (simp_all add: Concrete fields_weight_def)
qed (simp add: fields_weight_def)

lemma seq_elems_weight: "elems_weight (seq_elems rv) + 1 \<le> size rv"
proof (cases rv)
  case (Concrete v)
  have le: "size (underlying v) \<le> size v" by (rule size_underlying)
  show ?thesis
  proof (cases "underlying v")
    case (Seq sk ek xs)
    with le elems_weight_le [of xs] Concrete show ?thesis by simp
  qed (simp_all add: Concrete elems_weight_def)
qed (simp add: elems_weight_def)

lemma map_entries_weight: "entries_weight (map_entries rv) + 1 \<le> size rv"
proof (cases rv)
  case (Concrete v)
  have le: "size (underlying v) \<le> size v" by (rule size_underlying)
  show ?thesis
  proof (cases "underlying v")
    case (MapV kk es)
    with le entries_weight_MapV [of es] Concrete show ?thesis by simp
  next
    case (Object es)
    with le entries_weight_Object [of es] Concrete show ?thesis by simp
  qed (simp_all add: Concrete entries_weight_def)
qed (simp add: entries_weight_def)


text \<open>The facts the termination proof of the normalizer needs.\<close>

lemma Interface_of_size: "size (Interface_of x) < size x"
  by (cases x) auto

lemma term_deref: "3 * size (getElemValueAndType (Concrete v)) < 3 * size v + 4"
  using getElem_size [of "Concrete v"] by simp

lemma term_struct: "3 * fields_weight (struct_fields rv) + 2 < 3 * size rv"
  using struct_fields_weight [of rv] by simp

lemma term_slice: "3 * elems_weight (seq_elems rv) + 2 < 3 * size rv"
  using seq_elems_weight [of rv] by simp

lemma term_map: "3 * entries_weight (map_entries rv) + 2 < 3 * size rv"
  using map_entries_weight [of rv] by simp

lemma term_field: "3 * size (Interface_of (fvalue fld)) + 4 < 3 * fields_weight (fld # rest) + 2"
  using Interface_of_size [of "fvalue fld"] by (simp add: fields_weight_def)

lemma term_field_rest: "3 * fields_weight rest + 2 < 3 * fields_weight (fld # rest) + 2"
  using Interface_of_size [of "fvalue fld"] by (simp add: fields_weight_def)

lemma term_elem: "3 * size (Interface_of x) + 4 < 3 * elems_weight (x # xs) + 2"
  using Interface_of_size [of x] by (simp add: elems_weight_def)

lemma term_elem_rest: "3 * elems_weight xs + 2 < 3 * elems_weight (x # xs) + 2"
  using Interface_of_size [of x] by (simp add: elems_weight_def)

lemma term_entry: "3 * size (Interface_of v) + 4 < 3 * entries_weight ((k, v) # es) + 2"
  using Interface_of_size [of v] by (simp add: entries_weight_def)

lemma term_entry_rest: "3 * entries_weight es + 2 < 3 * entries_weight ((k, v) # es) + 2"
  using Interface_of_size [of v] by (simp add: entries_weight_def)

lemmas term_facts = term_deref term_struct term_slice term_map term_field term_field_rest
  term_elem term_elem_rest term_entry term_entry_rest

section \<open>The normalizer\<close>

text \<open>
  \<^verbatim>\<open>Normalize\<close> with \<^verbatim>\<open>normalizeStruct\<close>, \<^verbatim>\<open>normalizeSlice\<close> and \<^verbatim>\<open>normalizeMap\<close>, mutually
  recursive as in the source; each \<^verbatim>\<open>for\<close> loop is the \<open>_loop\<close> function beside it,
  with the map or slice under construction as accumulator. The first five cases of
  \<open>Normalize\<close> are the nil test and the type switch; dereferencing a nil
  \<^verbatim>\<open>*time.Time\<close> panics.
\<close>

function (sequential)
    Normalize :: "gval \<Rightarrow> gval result"
and normalizeStruct :: "rvalue \<Rightarrow> obj result"
and normalizeStruct_loop :: "StructField list \<Rightarrow> obj \<Rightarrow> obj result"
and normalizeSlice :: "rvalue \<Rightarrow> gval result"
and normalizeSlice_loop :: "rvalue list \<Rightarrow> gval list \<Rightarrow> gval list result"
and normalizeMap :: "rvalue \<Rightarrow> obj result"
and normalizeMap_loop :: "(rvalue \<times> rvalue) list \<Rightarrow> obj \<Rightarrow> obj result"
where
  "Normalize value =
     (case value of
        Nil \<Rightarrow> Inr Nil
      | Time t \<Rightarrow> Inr value
      | Opaque x \<Rightarrow> Inr value
      | TimePtr p \<Rightarrow> (case p of None \<Rightarrow> Inl (Panic NilDereference) | Some t \<Rightarrow> Inr (Time t))
      | Marshaler x r \<Rightarrow> (case r of Inl f \<Rightarrow> Inl f | Inr bs \<Rightarrow> Inr (bytes_value bs))
      | _ \<Rightarrow>
        (let rValue = getElemValueAndType (Concrete value); k = Kind rValue in
         if k = PtrK then Inr Nil
         else if k \<in> {UintK, Uint8K, Uint16K, Uint32K, Uint64K} then
           Inr (UintV Uint64T (Uint_of rValue))
         else if k \<in> {IntK, Int8K, Int16K, Int32K, Int64K} then
           Inr (IntV Int64T (Int_of rValue))
         else if k \<in> {Float32K, Float64K} then Inr (FloatV Float64T (Float_of rValue))
         else if k = StructK then
           (case normalizeStruct rValue of Inl err \<Rightarrow> Inl err | Inr m \<Rightarrow> Inr (Object m))
         else if k = MapK then
           (case normalizeMap rValue of Inl err \<Rightarrow> Inl err | Inr m \<Rightarrow> Inr (Object m))
         else if k = StringK then Inr (Str (String_of rValue))
         else if k = BoolK then Inr (Boolean (Bool_of rValue))
         else if k \<in> {SliceK, ArrayK} then normalizeSlice rValue
         else Inl (Error InvalidDtype)))"
| "normalizeStruct structValue = normalizeStruct_loop (struct_fields structValue) []"
| "normalizeStruct_loop [] m = Inr m"
| "normalizeStruct_loop (fld # rest) m =
     (if PkgPath fld = [] then
        (let fieldName = Name fld;
             (name, omitempty) = processStructTag (Tag fld);
             fieldName = (if name \<noteq> [] then name else fieldName)
         in if \<not> omitempty \<or> \<not> isEmptyValue (fvalue fld) then
              (case Normalize (Interface_of (fvalue fld)) of
                 Inl err \<Rightarrow> Inl err
               | Inr normalized \<Rightarrow>
                   if \<not> Anonymous fld then
                     normalizeStruct_loop rest (AList.update fieldName normalized m)
                   else
                     (case normalized of
                        Object normalizedMap \<Rightarrow>
                          normalizeStruct_loop rest
                            (foldl (\<lambda>acc (k, v). AList.update k v acc) m normalizedMap)
                      | _ \<Rightarrow> normalizeStruct_loop rest (AList.update fieldName normalized m)))
            else normalizeStruct_loop rest m)
      else normalizeStruct_loop rest m)"
| "normalizeSlice sliceValue =
     (if elem_kind sliceValue = Uint8K then Inr (Interface_of sliceValue)
      else (case normalizeSlice_loop (seq_elems sliceValue) [] of
              Inl err \<Rightarrow> Inl err
            | Inr s \<Rightarrow> Inr (Seq SliceT InterfaceK (map Iface s))))"
| "normalizeSlice_loop [] s = Inr s"
| "normalizeSlice_loop (x # xs) s =
     (case Normalize (Interface_of x) of
        Inl err \<Rightarrow> Inl err
      | Inr v \<Rightarrow> normalizeSlice_loop xs (s @ [v]))"
| "normalizeMap mapValue =
     (if key_kind mapValue \<noteq> StringK then Inl (Error MapKeyNotString)
      else normalizeMap_loop (map_entries mapValue) [])"
| "normalizeMap_loop [] m = Inr m"
| "normalizeMap_loop ((key, value) # rest) m =
     (case Normalize (Interface_of value) of
        Inl err \<Rightarrow> Inl err
      | Inr normalized \<Rightarrow> normalizeMap_loop rest (AList.update (String_of key) normalized m))"
  by pat_completeness auto

termination
  apply (relation "measure (\<lambda>a. case a of
      Inl (Inl v) \<Rightarrow> 3 * size v + 4
    | Inl (Inr (Inl rv)) \<Rightarrow> 3 * size rv
    | Inl (Inr (Inr (fs, m))) \<Rightarrow> 3 * fields_weight fs + 2
    | Inr (Inl (Inl rv)) \<Rightarrow> 3 * size rv
    | Inr (Inl (Inr (xs, s))) \<Rightarrow> 3 * elems_weight xs + 2
    | Inr (Inr (Inl rv)) \<Rightarrow> 3 * size rv
    | Inr (Inr (Inr (es, m))) \<Rightarrow> 3 * entries_weight es + 2)")
  apply (simp_all only: in_measure wf_measure sum.case prod.case term_facts)
  done


declare Normalize.simps [simp del]
declare normalizeStruct_loop.simps(2) [simp del]

section \<open>Documents\<close>

text \<open>
  The msgpack codec behind \<^verbatim>\<open>marshal\<close> and \<^verbatim>\<open>unmarshal\<close> is an external library: the
  model takes it as a parameter. \<open>marshal c v\<close> is the encoding of \<open>v\<close> or an error;
  \<open>unmarshal c b\<close> decodes \<open>b\<close> into a \<^verbatim>\<open>map[string]interface{}\<close> or fails.
\<close>

record codec =
  marshal :: "gval \<Rightarrow> error + 8 word list"
  unmarshal :: "8 word list \<Rightarrow> error + obj"

text \<open>
  A \<^verbatim>\<open>Document\<close> holds the encoded bytes \<open>msg\<close> and the field map \<open>fields\<close>; either may
  be nil (\<open>None\<close>). The methods mutate the document they are called on: the model
  returns the document after the call beside the result.
\<close>

datatype Document = Document (msg: "8 word list option") (fields: "obj option")

definition NewDocument :: Document where
  "NewDocument = Document None None"

definition initFields :: "codec \<Rightarrow> Document \<Rightarrow> Document result" where
  "initFields c doc =
     (if fields doc \<noteq> None then Inr doc
      else (case msg doc of
        None \<Rightarrow> Inr (Document (msg doc) (Some []))
      | Some b \<Rightarrow>
         (case unmarshal c b of
            Inl err \<Rightarrow> Inl (Error (Wrapped ''unmarshal'' err))
          | Inr decoded \<Rightarrow>
             (case Normalize (Object decoded) of
                Inl (Error err) \<Rightarrow> Inl (Error (Wrapped ''normalize'' err))
              | Inl (Panic p) \<Rightarrow> Inl (Panic p)
              | Inr normalized \<Rightarrow>
                 (case normalized of
                    Object m \<Rightarrow> Inr (Document (msg doc) (Some m))
                  | _ \<Rightarrow> Inl (Panic (PanicMsg ''should be a map'')))))))"

definition mustInitFields :: "codec \<Rightarrow> Document \<Rightarrow> Document result" where
  "mustInitFields c doc =
     (case initFields c doc of
        Inl (Error err) \<Rightarrow> Inl (Panic (PanicError err))
      | Inl (Panic p) \<Rightarrow> Inl (Panic p)
      | Inr doc' \<Rightarrow> Inr doc')"

text \<open>
  \<^verbatim>\<open>lookupField\<close> walks the segments of a dotted name through nested maps. Go maps are
  references: with \<^verbatim>\<open>force\<close> the loop writes new maps into the document's own map and
  returns the innermost map for the caller to assign into. The model has no
  references, so the loop returns, beside the innermost map \<open>inner\<close> and the value
  \<open>f\<close>, the outermost map as the writes have left it and the path from it to
  \<open>inner\<close>; \<open>store\<close> puts a changed map back under its key in the enclosing one as
  the recursion returns. A failed type assertion leaves \<^verbatim>\<open>m\<close> a nil map (\<open>None\<close>),
  and reading a nil map finds nothing. \<open>None\<close> as the loop's result is the early
  \<^verbatim>\<open>return nil, nil, ""\<close>.
\<close>

definition store :: "obj option \<Rightarrow> string \<Rightarrow> obj option \<Rightarrow> obj option" where
  "store currMap field m =
     (case (currMap, m) of
        (Some cm, Some sub) \<Rightarrow> Some (AList.update field (Object sub) cm)
      | _ \<Rightarrow> currMap)"

fun lookupField_loop ::
  "bool \<Rightarrow> string list \<Rightarrow> obj option \<Rightarrow> gval \<Rightarrow>
     (obj option \<times> string list \<times> obj option \<times> gval) option" where
  "lookupField_loop force [] currMap f = Some (currMap, [], currMap, f)"
| "lookupField_loop force (field # rest) currMap f0 =
     (let (f, exists) =
            (case currMap of
               None \<Rightarrow> (Nil, False)
             | Some cm \<Rightarrow> (case map_of cm field of None \<Rightarrow> (Nil, False) | Some v \<Rightarrow> (v, True)));
          (m, isMap) = (case f of Object sub \<Rightarrow> (Some sub, True) | _ \<Rightarrow> (None, False));
          create = (force \<and> (\<not> exists \<or> \<not> isMap) \<and> rest \<noteq> []);
          m = (if create then Some [] else m);
          f = (if create then Object [] else f)
      in if \<not> force \<and> \<not> exists then None
         else if rest \<noteq> [] then
           (case lookupField_loop force rest m f of
              None \<Rightarrow> None
            | Some (m', path, inner, f') \<Rightarrow> Some (store currMap field m', field # path, inner, f'))
         else Some (currMap, [], currMap, f))"

definition lookupField ::
  "string \<Rightarrow> obj \<Rightarrow> bool \<Rightarrow> obj \<times> string list \<times> obj option \<times> gval \<times> string" where
  "lookupField name fieldMap force =
     (let segs = split_on CHR ''.'' name in
      case lookupField_loop force segs (Some fieldMap) Nil of
        None \<Rightarrow> (fieldMap, [], None, Nil, [])
      | Some (root, path, currMap, f) \<Rightarrow>
          (case root of None \<Rightarrow> fieldMap | Some r \<Rightarrow> r, path, currMap, f, last segs))"

text \<open>\<^verbatim>\<open>m[k] = v\<close> on the map that lies at \<open>path\<close> inside \<open>root\<close>.\<close>

fun assign_at :: "obj \<Rightarrow> string list \<Rightarrow> string \<Rightarrow> gval \<Rightarrow> obj" where
  "assign_at root [] k v = AList.update k v root"
| "assign_at root (p # ps) k v =
     (case map_of root p of
        Some (Object sub) \<Rightarrow> AList.update p (Object (assign_at sub ps k v)) root
      | _ \<Rightarrow> root)"

text \<open>The field map of a document; a nil map reads as the empty map.\<close>

definition field_map :: "Document \<Rightarrow> obj" where
  "field_map doc = (case fields doc of None \<Rightarrow> [] | Some m \<Rightarrow> m)"

definition Has :: "codec \<Rightarrow> string \<Rightarrow> Document \<Rightarrow> (bool \<times> Document) result" where
  "Has c name doc =
     (case mustInitFields c doc of
        Inl e \<Rightarrow> Inl e
      | Inr doc' \<Rightarrow>
          (let (root, path, fieldMap, v, fieldName) = lookupField name (field_map doc') False
           in Inr (fieldMap \<noteq> None, doc')))"

definition Get :: "codec \<Rightarrow> string \<Rightarrow> Document \<Rightarrow> (gval \<times> Document) result" where
  "Get c name doc =
     (case mustInitFields c doc of
        Inl e \<Rightarrow> Inl e
      | Inr doc' \<Rightarrow>
          (let (root, path, fieldMap, v, fieldName) = lookupField name (field_map doc') False
           in Inr (v, doc')))"

text \<open>
  \<^verbatim>\<open>Set\<close> does nothing more when \<^verbatim>\<open>Normalize\<close> returns an error; it panics when
  \<^verbatim>\<open>marshal\<close> fails, and assigning into a nil map would panic too.
\<close>

definition Set :: "codec \<Rightarrow> string \<Rightarrow> gval \<Rightarrow> Document \<Rightarrow> Document result" where
  "Set c name value doc =
     (case mustInitFields c doc of
        Inl e \<Rightarrow> Inl e
      | Inr doc' \<Rightarrow>
          (case Normalize value of
             Inl (Error err) \<Rightarrow> Inr doc'
           | Inl (Panic p) \<Rightarrow> Inl (Panic p)
           | Inr normalizedValue \<Rightarrow>
               (let (root, path, m, v, fieldName) = lookupField name (field_map doc') True
                in case m of
                     None \<Rightarrow> Inl (Panic NilMapAssign)
                   | Some inner \<Rightarrow>
                      (let fields' = assign_at root path fieldName normalizedValue
                       in case marshal c (Object fields') of
                            Inl err \<Rightarrow> Inl (Panic (PanicError err))
                          | Inr b \<Rightarrow> Inr (Document (Some b) (Some fields'))))))"

text \<open>\<^verbatim>\<open>Decode\<close> and \<^verbatim>\<open>Encode\<close>; the error both return is always nil.\<close>

definition Decode :: "8 word list option \<Rightarrow> Document" where
  "Decode data = Document data None"

definition Encode :: "Document \<Rightarrow> 8 word list option" where
  "Encode doc = msg doc"

section \<open>Index descriptors\<close>

text \<open>
  \<^verbatim>\<open>type IndexType int\<close> with its two named constants, the structs \<^verbatim>\<open>IndexInfo\<close>
  and \<^verbatim>\<open>indexBase\<close> field by field, and
  \<^verbatim>\<open>CreateBadgerIndex\<close>. The \<^verbatim>\<open>Index\<close> the constructor returns is an interface value:
  \<open>None\<close> is nil, and \<open>Some\<close> of a \<^verbatim>\<open>badgerRangeIndex\<close> (an \<^verbatim>\<open>indexBase\<close> and the
  transaction, as the struct literal in the source builds it) otherwise. The
  transaction type belongs to the key-value store and stays a type parameter.
  \<open>Collection\<close> and \<open>Field_of\<close> are the methods \<^verbatim>\<open>Collection()\<close> and \<^verbatim>\<open>Field()\<close> that the
  index inherits from its \<^verbatim>\<open>indexBase\<close>.
\<close>

type_synonym IndexType = int

definition IndexSingleField :: IndexType where
  "IndexSingleField = 0"

definition IndexGeoSpatial :: IndexType where
  "IndexGeoSpatial = 1"

datatype IndexInfo = IndexInfo (Field: string) (Type: IndexType)

datatype indexBase = IndexBase (collection: string) (field: string)

datatype 'txn badgerRangeIndex = BadgerRangeIndex (base: indexBase) (txn: 'txn)

definition Collection :: "'txn badgerRangeIndex \<Rightarrow> string" where
  "Collection idx = collection (base idx)"

definition Field_of :: "'txn badgerRangeIndex \<Rightarrow> string" where
  "Field_of idx = field (base idx)"

definition CreateBadgerIndex ::
  "string \<Rightarrow> string \<Rightarrow> IndexType \<Rightarrow> 'txn \<Rightarrow> 'txn badgerRangeIndex option" where
  "CreateBadgerIndex coll fld idxType tx =
     (let indexBase = IndexBase coll fld
      in if idxType = IndexSingleField then Some (BadgerRangeIndex indexBase tx)
         else None)"

section \<open>Notions used to state the properties\<close>

text \<open>The kinds of the scalars that \<open>Normalize\<close> has a case for.\<close>

definition scalar_kinds :: "kind set" where
  "scalar_kinds =
     {UintK, Uint8K, Uint16K, Uint32K, Uint64K, IntK, Int8K, Int16K, Int32K, Int64K,
      Float32K, Float64K, StringK, BoolK}"

text \<open>\<open>pointer_chain n v\<close> is \<open>v\<close> behind \<open>n\<close> non-nil pointers.\<close>

fun pointer_chain :: "nat \<Rightarrow> gval \<Rightarrow> gval" where
  "pointer_chain 0 v = v"
| "pointer_chain (Suc n) v = Pointer (Some (Concrete (pointer_chain n v)))"

text \<open>
  The key \<^verbatim>\<open>normalizeStruct\<close> uses for a field and the field's \<^verbatim>\<open>omitempty\<close> flag, both
  as \<open>processStructTag\<close> reads them from the tag; \<open>struct_step\<close> is one iteration of
  the loop of \<^verbatim>\<open>normalizeStruct\<close> (see \<open>normalizeStruct_loop_Cons\<close> below).
\<close>

definition field_key :: "StructField \<Rightarrow> string" where
  "field_key fld = (let (name, omitempty) = processStructTag (Tag fld)
                    in if name \<noteq> [] then name else Name fld)"

definition field_omitempty :: "StructField \<Rightarrow> bool" where
  "field_omitempty fld = snd (processStructTag (Tag fld))"

definition struct_step :: "StructField \<Rightarrow> obj \<Rightarrow> obj result" where
  "struct_step fld m =
     (if PkgPath fld = [] \<and> (\<not> field_omitempty fld \<or> \<not> isEmptyValue (fvalue fld)) then
        (case Normalize (Interface_of (fvalue fld)) of
           Inl err \<Rightarrow> Inl err
         | Inr normalized \<Rightarrow>
             (case (Anonymous fld, normalized) of
                (True, Object normalizedMap) \<Rightarrow>
                  Inr (foldl (\<lambda>acc (k, v). AList.update k v acc) m normalizedMap)
              | _ \<Rightarrow> Inr (AList.update (field_key fld) normalized m)))
      else Inr m)"

text \<open>
  Reading and writing a dotted path, as the specification words them: \<open>lookup_path\<close>
  walks the field map segment by segment and finds nothing when a segment is
  missing or an intermediate value is not a map; \<open>set_path\<close> creates every
  intermediate segment that is missing or not a map as an empty map and assigns
  the leaf.
\<close>

fun lookup_path :: "string list \<Rightarrow> obj \<Rightarrow> gval option" where
  "lookup_path [] m = None"
| "lookup_path [k] m = map_of m k"
| "lookup_path (k # ks) m =
     (case map_of m k of Some (Object sub) \<Rightarrow> lookup_path ks sub | _ \<Rightarrow> None)"

fun set_path :: "string list \<Rightarrow> gval \<Rightarrow> obj \<Rightarrow> obj" where
  "set_path [] v m = m"
| "set_path [k] v m = AList.update k v m"
| "set_path (k # ks) v m =
     AList.update k
       (Object (set_path ks v (case map_of m k of Some (Object sub) \<Rightarrow> sub | _ \<Rightarrow> []))) m"

text \<open>The field map a document shows once \<open>initFields\<close> has run.\<close>

definition materialized :: "codec \<Rightarrow> Document \<Rightarrow> obj result" where
  "materialized c doc =
     (case initFields c doc of Inl e \<Rightarrow> Inl e | Inr doc' \<Rightarrow> Inr (field_map doc'))"


text \<open>
  A codec for examples. It knows three documents with their msgpack encodings and
  rejects everything else.
\<close>

definition example_codec :: codec where
  "example_codec =
     \<lparr>marshal = (\<lambda>v.
        if v = Object [] then Inr [0x80]
        else if v = Object [(''a'', Nil)] then Inr [0x81, 0xA1, 0x61, 0xC0]
        else if v = Object [(''a'', Object [(''b'', Object [(''c'', IntV Int64T 5)])])] then
          Inr [0x81, 0xA1, 0x61, 0x81, 0xA1, 0x62, 0x81, 0xA1, 0x63, 0x05]
        else Inl (External 0)),
      unmarshal = (\<lambda>b.
        if b = [0x80] then Inr []
        else if b = [0x81, 0xA1, 0x61, 0xC0] then Inr [(''a'', Nil)]
        else if b = [0x81, 0xA1, 0x61, 0x81, 0xA1, 0x62, 0x81, 0xA1, 0x63, 0x05] then
          Inr [(''a'', Object [(''b'', Object [(''c'', IntV Int8T 5)])])]
        else Inl (External 1))\<rparr>"

text \<open>
  Modelled from the spec: the codec collaborator (msgpack, a library that is not
  under \<^verbatim>\<open>src/\<close>) "compacts integer representations", and \<^verbatim>\<open>marshal\<close> asks for it with
  \<^verbatim>\<open>enc.UseCompactInts(true)\<close>. An integer is written in the shortest msgpack form that
  holds its value, whatever its Go type: 5 is the one byte \<^verbatim>\<open>0x05\<close> (a positive
  fixint) as a \<^verbatim>\<open>uint64\<close> and as an \<^verbatim>\<open>int64\<close> alike, and that byte decodes into an
  \<^verbatim>\<open>interface{}\<close> as a signed integer. \<open>compact_int_codec\<close> is this behaviour on the
  documents \<^verbatim>\<open>{}\<close> and \<^verbatim>\<open>{"a": 5}\<close>; it rejects everything else.
\<close>

definition compact_int_codec :: codec where
  "compact_int_codec =
     \<lparr>marshal = (\<lambda>v.
        if v = Object [] then Inr [0x80]
        else if v = Object [(''a'', UintV Uint64T 5)] \<or> v = Object [(''a'', IntV Int64T 5)] then
          Inr [0x81, 0xA1, 0x61, 0x05]
        else Inl (External 0)),
      unmarshal = (\<lambda>b.
        if b = [0x80] then Inr []
        else if b = [0x81, 0xA1, 0x61, 0x05] then Inr [(''a'', IntV Int8T 5)]
        else Inl (External 1))\<rparr>"

text \<open>
  The codec round-trips a field map when the bytes it encodes the map to decode and
  normalize back to that map.
\<close>

definition round_trips :: "codec \<Rightarrow> obj \<Rightarrow> bool" where
  "round_trips c m =
     (case marshal c (Object m) of
        Inl err \<Rightarrow> True
      | Inr b \<Rightarrow> materialized c (Decode (Some b)) = Inr m)"

text \<open>
  A document is unmodified when \<^verbatim>\<open>NewDocument\<close> or \<^verbatim>\<open>Decode\<close> built it and it has since
  only been read (the lazy \<open>initFields\<close> that every accessor runs) or passed to
  \<^verbatim>\<open>Set\<close> with a value whose normalization failed.
\<close>

inductive unmodified :: "codec \<Rightarrow> Document \<Rightarrow> bool" for c :: codec where
  new: "unmodified c NewDocument"
| decoded: "unmodified c (Decode data)"
| init: "unmodified c d \<Longrightarrow> initFields c d = Inr d' \<Longrightarrow> unmodified c d'"
| set_ignored:
    "unmodified c d \<Longrightarrow> Normalize value = Inl (Error err) \<Longrightarrow> Set c name value d = Inr d' \<Longrightarrow>
     unmodified c d'"

text \<open>The cached bytes of a materialized document decode to its field map.\<close>

definition in_sync :: "codec \<Rightarrow> Document \<Rightarrow> bool" where
  "in_sync c d =
     (case fields d of
        None \<Rightarrow> True
      | Some m \<Rightarrow> materialized c (Document (msg d) None) = Inr m)"

section \<open>Properties of the normalizer\<close>

lemma getElem_not_pointer: "Kind rv \<noteq> PtrK \<Longrightarrow> getElemValueAndType rv = rv"
  by (subst getElemValueAndType.simps) simp

lemma getElem_nil: "IsNil rv \<Longrightarrow> getElemValueAndType rv = rv"
  by (subst getElemValueAndType.simps) simp

lemma getElem_Pointer_Some:
  "getElemValueAndType (Concrete (Pointer (Some x))) = getElemValueAndType x"
  by (subst getElemValueAndType.simps) simp

lemma Normalize_UintV:
  "Normalize (UintV k w) =
     (if k = UintptrT then Inl (Error InvalidDtype) else Inr (UintV Uint64T w))"
  by (cases k) (simp_all add: Normalize.simps getElem_not_pointer)

lemma Normalize_IntV: "Normalize (IntV k w) = Inr (IntV Int64T w)"
  by (cases k) (simp_all add: Normalize.simps getElem_not_pointer)

lemma Normalize_FloatV: "Normalize (FloatV k w) = Inr (FloatV Float64T w)"
  by (cases k) (simp_all add: Normalize.simps getElem_not_pointer)

lemma Normalize_Str: "Normalize (Str s) = Inr (Str s)"
  by (simp add: Normalize.simps getElem_not_pointer)

lemma Normalize_Boolean: "Normalize (Boolean b) = Inr (Boolean b)"
  by (simp add: Normalize.simps getElem_not_pointer)

lemma Normalize_Marshaler:
  "Normalize (Marshaler v r) = (case r of Inl f \<Rightarrow> Inl f | Inr bs \<Rightarrow> Inr (bytes_value bs))"
  by (simp add: Normalize.simps)

lemma Normalize_bytes: "Normalize (Seq sk Uint8K xs) = Inr (Seq sk Uint8K xs)"
  by (cases sk) (simp_all add: Normalize.simps getElem_not_pointer)

lemma Normalize_Pointer:
  "Normalize (Pointer p) =
     (let rValue = getElemValueAndType (Concrete (Pointer p)); k = Kind rValue in
      if k = PtrK then Inr Nil
      else if k \<in> {UintK, Uint8K, Uint16K, Uint32K, Uint64K} then
        Inr (UintV Uint64T (Uint_of rValue))
      else if k \<in> {IntK, Int8K, Int16K, Int32K, Int64K} then
        Inr (IntV Int64T (Int_of rValue))
      else if k \<in> {Float32K, Float64K} then Inr (FloatV Float64T (Float_of rValue))
      else if k = StructK then
        (case normalizeStruct rValue of Inl err \<Rightarrow> Inl err | Inr m \<Rightarrow> Inr (Object m))
      else if k = MapK then
        (case normalizeMap rValue of Inl err \<Rightarrow> Inl err | Inr m \<Rightarrow> Inr (Object m))
      else if k = StringK then Inr (Str (String_of rValue))
      else if k = BoolK then Inr (Boolean (Bool_of rValue))
      else if k \<in> {SliceK, ArrayK} then normalizeSlice rValue
      else Inl (Error InvalidDtype))"
  by (simp add: Normalize.simps)

lemma getElem_chain_nil:
  "IsNil (Concrete v) \<Longrightarrow> getElemValueAndType (Concrete (pointer_chain n v)) = Concrete v"
  by (induction n) (simp_all add: getElem_nil getElem_Pointer_Some)

lemma Normalize_nil_pointer_chain:
  "Normalize (pointer_chain n (Pointer None)) = Inr Nil"
proof (cases n)
  case 0
  then show ?thesis by (simp add: Normalize_Pointer getElem_nil)
next
  case (Suc m)
  have "getElemValueAndType (Concrete (pointer_chain m (Pointer None))) = Concrete (Pointer None)"
    by (rule getElem_chain_nil) simp
  with Suc show ?thesis by (simp add: Normalize_Pointer getElem_Pointer_Some)
qed

lemma Normalize_nil_time_pointer_chain:
  "Normalize (pointer_chain (Suc n) (TimePtr None)) = Inr Nil"
proof -
  have "getElemValueAndType (Concrete (pointer_chain n (TimePtr None))) = Concrete (TimePtr None)"
    by (rule getElem_chain_nil) simp
  then show ?thesis by (simp add: Normalize_Pointer getElem_Pointer_Some)
qed

text \<open>
  C7. Normalizing a value of a supported scalar kind (an unsigned or signed integer
  other than \<^verbatim>\<open>uintptr\<close>, a float, a string, a boolean) and normalizing the result
  again gives the same result: \<open>Normalize (Normalize x) = Normalize x\<close>.
  The first normalization fails only for a value of a named scalar type whose own
  \<^verbatim>\<open>MarshalBinary\<close> fails.
\<close>

theorem normalize_idempotent_on_scalars:
  assumes "kind_of x \<in> scalar_kinds"
  shows "case Normalize x of
           Inr y \<Rightarrow> Normalize y = Inr y
         | Inl e \<Rightarrow> (\<exists>v. x = Marshaler v (Inl e))"
proof (cases x)
  case (UintV k w)
  with assms have "k \<noteq> UintptrT" by (auto simp: scalar_kinds_def)
  with UintV show ?thesis by (simp add: Normalize_UintV)
next
  case (Marshaler v r)
  then show ?thesis
    by (cases r) (simp_all add: Normalize_Marshaler bytes_value_def Normalize_bytes)
next
  case (Seq sk ek xs)
  with assms show ?thesis by (cases sk) (simp_all add: scalar_kinds_def)
next
  case (Other k)
  with assms show ?thesis by (cases k) (simp_all add: scalar_kinds_def)
qed (use assms in \<open>simp_all add: scalar_kinds_def Normalize_IntV Normalize_FloatV
       Normalize_Str Normalize_Boolean\<close>)

theorem normalize_idempotent_on_scalars_witness:
  "kind_of (UintV Uint8T 5) \<in> scalar_kinds \<and>
   Normalize (UintV Uint8T 5) = Inr (UintV Uint64T 5) \<and>
   Normalize (UintV Uint64T 5) = Inr (UintV Uint64T 5)"
  using normalize_idempotent_on_scalars [of "UintV Uint8T 5"]
  by (simp add: scalar_kinds_def Normalize_UintV)


text \<open>
  C2. A nil \<^verbatim>\<open>*time.Time\<close> does not normalize to nil: the type switch dereferences it
  and the call panics. Every other nil pointer, behind any number of pointers,
  normalizes to nil without error, and so does a nil \<^verbatim>\<open>*time.Time\<close> reached through
  at least one other pointer.
\<close>

theorem nil_time_pointer_panics:
  "Normalize (TimePtr None) = Inl (Panic NilDereference) \<and>
   Normalize (pointer_chain n (Pointer None)) = Inr Nil \<and>
   Normalize (pointer_chain (Suc n) (TimePtr None)) = Inr Nil"
  by (simp only: Normalize_nil_pointer_chain Normalize_nil_time_pointer_chain)
     (simp add: Normalize.simps)

text \<open>
  C6. A slice or an array whose element kind is \<^verbatim>\<open>uint8\<close> normalizes to itself, one
  binary value, also behind a pointer; \<^verbatim>\<open>[]byte{1,2,3}\<close> stays \<^verbatim>\<open>[]byte{1,2,3}\<close> and does
  not become the list of the three numbers. (A value of a named type with its own
  \<^verbatim>\<open>MarshalBinary\<close> is a \<open>Marshaler\<close>, whatever its kind: the type switch hands it
  to that method before any kind is looked at.)
\<close>

theorem byte_sequence_is_blob:
  "Normalize (Seq sk Uint8K xs) = Inr (Seq sk Uint8K xs) \<and>
   Normalize (Pointer (Some (Concrete (Seq sk Uint8K xs)))) = Inr (Seq sk Uint8K xs) \<and>
   Normalize (bytes_value [1, 2, 3]) = Inr (bytes_value [1, 2, 3]) \<and>
   bytes_value [1, 2, 3] \<noteq>
     Seq SliceT InterfaceK [Iface (UintV Uint64T 1), Iface (UintV Uint64T 2), Iface (UintV Uint64T 3)]"
proof -
  have "getElemValueAndType (Concrete (Pointer (Some (Concrete (Seq sk Uint8K xs)))))
          = Concrete (Seq sk Uint8K xs)"
    by (simp add: getElem_Pointer_Some getElem_not_pointer)
  then have "Normalize (Pointer (Some (Concrete (Seq sk Uint8K xs)))) = Inr (Seq sk Uint8K xs)"
    by (cases sk) (simp_all add: Normalize_Pointer)
  then show ?thesis by (simp add: Normalize_bytes bytes_value_def)
qed


lemma normalizeStruct_loop_Cons:
  "normalizeStruct_loop (fld # rest) m =
     (case struct_step fld m of Inl err \<Rightarrow> Inl err | Inr m' \<Rightarrow> normalizeStruct_loop rest m')"
  by (auto simp: normalizeStruct_loop.simps(2) struct_step_def field_key_def field_omitempty_def
           split: prod.splits sum.splits gval.splits)

lemma normalizeStruct_loop_append:
  "normalizeStruct_loop (pre @ post) m =
     (case normalizeStruct_loop pre m of
        Inl err \<Rightarrow> Inl err
      | Inr m' \<Rightarrow> normalizeStruct_loop post m')"
proof (induction pre arbitrary: m)
  case Nil
  show ?case by simp
next
  case (Cons fld pre)
  show ?case
    by (simp only: append_Cons normalizeStruct_loop_Cons Cons.IH split: sum.splits) simp
qed

lemma keys_update: "fst ` set (AList.update k v m) = insert k (fst ` set m)"
  by (simp add: dom_update)

lemma keys_merge:
  "fst ` set m \<subseteq> fst ` set (foldl (\<lambda>acc (k, v). AList.update k v acc) m es)"
proof (induction es arbitrary: m)
  case (Cons e es)
  obtain k v where e: "e = (k, v)" by (cases e)
  have "fst ` set m \<subseteq> fst ` set (AList.update k v m)" by (auto simp: keys_update)
  also have "\<dots> \<subseteq> fst ` set (foldl (\<lambda>acc (k, v). AList.update k v acc) (AList.update k v m) es)"
    by (rule Cons.IH)
  finally show ?case by (simp add: e)
qed simp

lemma struct_step_cases:
  "struct_step fld m = Inr m' \<Longrightarrow>
     m' = m \<or> (\<exists>n. m' = AList.update (field_key fld) n m) \<or>
     (\<exists>es. m' = foldl (\<lambda>acc (k, v). AList.update k v acc) m es)"
  by (auto simp: struct_step_def split: if_splits sum.splits gval.splits bool.splits)

lemma struct_step_keys:
  assumes "struct_step fld m = Inr m'"
  shows "fst ` set m \<subseteq> fst ` set m'"
proof -
  from struct_step_cases [OF assms] consider
      "m' = m"
    | n where "m' = AList.update (field_key fld) n m"
    | es where "m' = foldl (\<lambda>acc (k, v). AList.update k v acc) m es"
    by blast
  then show ?thesis
  proof cases
    case 1 then show ?thesis by simp
  next
    case 2 then show ?thesis by (simp only: keys_update) blast
  next
    case 3 then show ?thesis by (simp only: keys_merge)
  qed
qed

lemma normalizeStruct_loop_keys:
  "normalizeStruct_loop fs m = Inr m' \<Longrightarrow> fst ` set m \<subseteq> fst ` set m'"
proof (induction fs arbitrary: m)
  case (Cons fld fs)
  from Cons.prems obtain m1 where s: "struct_step fld m = Inr m1"
    and l: "normalizeStruct_loop fs m1 = Inr m'"
    by (auto simp only: normalizeStruct_loop_Cons split: sum.splits)
  from struct_step_keys [OF s] Cons.IH [OF l] show ?case by blast
qed simp

lemma Normalize_StructV:
  "Normalize (StructV fs) =
     (case normalizeStruct_loop fs [] of Inl err \<Rightarrow> Inl err | Inr m \<Rightarrow> Inr (Object m))"
  by (simp add: Normalize.simps getElem_not_pointer)

text \<open>What \<open>isEmptyValue\<close> says of each form of value.\<close>

lemma isEmptyValue_by_kind:
  "isEmptyValue (Concrete (Str s)) = (s = [])"
  "isEmptyValue (Concrete (Boolean b)) = (\<not> b)"
  "isEmptyValue (Concrete (IntV ik w)) = (w = 0)"
  "isEmptyValue (Concrete (UintV uk w)) = (w = 0)"
  "isEmptyValue (Concrete (FloatV fk w)) = float_is_zero w"
  "isEmptyValue (Concrete (Seq sk ek xs)) = (xs = [])"
  "isEmptyValue (Concrete (MapV kk es)) = (es = [])"
  "isEmptyValue (Concrete (Object m)) = (m = [])"
  "isEmptyValue (Concrete (Pointer p)) = (p = None)"
  "isEmptyValue (Concrete (TimePtr tp)) = (tp = None)"
  "isEmptyValue (Iface v) = (v = Nil)"
  "isEmptyValue (Concrete (StructV fs)) = False"
  "isEmptyValue (Concrete (Time t)) = False"
  "isEmptyValue (Concrete (Opaque v)) = False"
  "isEmptyValue (Concrete (Other ok)) = False"
proof -
  show "isEmptyValue (Concrete (IntV ik w)) = (w = 0)"
    by (cases ik) (simp_all add: isEmptyValue_def)
  show "isEmptyValue (Concrete (UintV uk w)) = (w = 0)"
    by (cases uk) (simp_all add: isEmptyValue_def)
  show "isEmptyValue (Concrete (FloatV fk w)) = float_is_zero w"
    by (cases fk) (simp_all add: isEmptyValue_def)
  show "isEmptyValue (Concrete (Seq sk ek xs)) = (xs = [])"
    by (cases sk) (simp_all add: isEmptyValue_def)
  show "isEmptyValue (Concrete (Other ok)) = False"
    by (cases ok) (simp_all add: isEmptyValue_def)
  show "isEmptyValue (Concrete (Pointer p)) = (p = None)"
    by (cases p) (simp_all add: isEmptyValue_def)
  show "isEmptyValue (Concrete (TimePtr tp)) = (tp = None)"
    by (cases tp) (simp_all add: isEmptyValue_def)
qed (simp_all add: isEmptyValue_def)

text \<open>
  C5 as stated fails: a field tagged \<^verbatim>\<open>omitempty\<close> that holds the zero value of an
  array type (here \<^verbatim>\<open>[2]int{0, 0}\<close>) is kept, since \<open>isEmptyValue\<close> asks an array
  for length 0.
\<close>

theorem omitempty_zero_array_counterexample:
  "Normalize (StructV [StructField [] ''Arr'' ''arr,omitempty'' False
      (Concrete (Seq ArrayT IntK [Concrete (IntV IntT 0), Concrete (IntV IntT 0)]))])
   = Inr (Object [(''arr'', Seq SliceT InterfaceK [Iface (IntV Int64T 0), Iface (IntV Int64T 0)])])"
  by code_simp

text \<open>
  C5, amended. For an exported field whose tag sets \<^verbatim>\<open>omitempty\<close>: when the field is
  empty in the sense of \<open>isEmptyValue\<close>, the record normalizes exactly as the record
  without that field does, so the field contributes no key; when it is not empty
  and not embedded, and the record normalizes to a map, the field's key is a key of
  that map.
\<close>

theorem omitempty_field:
  assumes "PkgPath fld = []" and "field_omitempty fld"
  shows "(isEmptyValue (fvalue fld) \<longrightarrow>
            Normalize (StructV (pre @ fld # post)) = Normalize (StructV (pre @ post))) \<and>
         (\<not> isEmptyValue (fvalue fld) \<and> \<not> Anonymous fld \<and>
            Normalize (StructV (pre @ fld # post)) = Inr (Object m) \<longrightarrow>
            field_key fld \<in> fst ` set m)"
proof (intro conjI impI)
  assume "isEmptyValue (fvalue fld)"
  with assms have "struct_step fld m' = Inr m'" for m'
    by (simp add: struct_step_def)
  then show "Normalize (StructV (pre @ fld # post)) = Normalize (StructV (pre @ post))"
    by (simp add: Normalize_StructV normalizeStruct_loop_append [of pre]
          normalizeStruct_loop_Cons split: sum.splits)
next
  assume a: "\<not> isEmptyValue (fvalue fld) \<and> \<not> Anonymous fld \<and>
    Normalize (StructV (pre @ fld # post)) = Inr (Object m)"
  then have "normalizeStruct_loop (pre @ fld # post) [] = Inr m"
    by (simp add: Normalize_StructV split: sum.splits)
  then obtain m1 m2 where "normalizeStruct_loop pre [] = Inr m1"
    and s: "struct_step fld m1 = Inr m2" and l: "normalizeStruct_loop post m2 = Inr m"
    by (auto simp: normalizeStruct_loop_append [of pre] normalizeStruct_loop_Cons
          split: sum.splits)
  from s a assms have "field_key fld \<in> fst ` set m2"
    by (auto simp: struct_step_def keys_update split: sum.splits)
  with normalizeStruct_loop_keys [OF l] show "field_key fld \<in> fst ` set m" by blast
qed


theorem omitempty_field_witness:
  "PkgPath (StructField [] ''Name'' ''clover,omitempty'' False (Concrete (Str []))) = [] \<and>
   field_omitempty (StructField [] ''Name'' ''clover,omitempty'' False (Concrete (Str []))) \<and>
   isEmptyValue (fvalue (StructField [] ''Name'' ''clover,omitempty'' False (Concrete (Str [])))) \<and>
   Normalize (StructV [StructField [] ''Name'' ''clover,omitempty'' False (Concrete (Str []))])
     = Inr (Object []) \<and>
   \<not> isEmptyValue (fvalue (StructField [] ''Name'' ''clover,omitempty'' False (Concrete (Str ''x'')))) \<and>
   Normalize (StructV [StructField [] ''Name'' ''clover,omitempty'' False (Concrete (Str ''x''))])
     = Inr (Object [(''clover'', Str ''x'')]) \<and>
   field_key (StructField [] ''Name'' ''clover,omitempty'' False (Concrete (Str ''x'')))
     \<in> fst ` set [(''clover'', Str ''x'')]"
  using omitempty_field [of "StructField [] ''Name'' ''clover,omitempty'' False (Concrete (Str []))"
          "[]" "[]" "[]"]
        omitempty_field [of "StructField [] ''Name'' ''clover,omitempty'' False (Concrete (Str ''x''))"
          "[]" "[]" "[(''clover'', Str ''x'')]"]
  by code_simp


section \<open>Properties of documents\<close>

lemma split_on_nonempty [simp]: "split_on sep s \<noteq> []"
  by (induction s) (auto split: list.splits)

lemma lookupField_loop_nil_map:
  "segs \<noteq> [] \<Longrightarrow> lookupField_loop False segs None f0 = None"
  by (cases segs) simp_all

lemma lookupField_loop_read:
  "segs \<noteq> [] \<Longrightarrow>
   (case lookup_path segs m of
      None \<Rightarrow> lookupField_loop False segs (Some m) f0 = None
    | Some v \<Rightarrow> (\<exists>r p i. lookupField_loop False segs (Some m) f0 = Some (r, p, Some i, v)))"
proof (induction segs m arbitrary: f0 rule: lookup_path.induct)
  case (1 m)
  then show ?case by simp
next
  case (2 k m)
  show ?case by (cases "map_of m k") (auto split: gval.splits)
next
  case (3 k k' ks m)
  show ?case
  proof (cases "map_of m k")
    case None
    then show ?thesis by simp
  next
    case (Some x)
    show ?thesis
    proof (cases x)
      case (Object sub)
      have ih: "case lookup_path (k' # ks) sub of
          None \<Rightarrow> lookupField_loop False (k' # ks) (Some sub) x = None
        | Some v \<Rightarrow> (\<exists>r p i. lookupField_loop False (k' # ks) (Some sub) x = Some (r, p, Some i, v))"
        using "3.IH" [OF Some Object, of x] by simp
      show ?thesis
      proof (cases "lookup_path (k' # ks) sub")
        case None
        with ih Some Object show ?thesis by simp
      next
        case (Some v)
        with ih obtain r p i where
          "lookupField_loop False (k' # ks) (Some sub) x = Some (r, p, Some i, v)" by auto
        with Some \<open>map_of m k = Some x\<close> Object show ?thesis by simp
      qed
    qed (use Some in \<open>simp_all add: lookupField_loop_nil_map\<close>)
  qed
qed


lemma lookupField_read:
  "\<exists>root path inner fieldName.
     lookupField name m False =
       (root, path, inner,
        (case lookup_path (split_on CHR ''.'' name) m of None \<Rightarrow> Nil | Some v \<Rightarrow> v), fieldName) \<and>
     (inner \<noteq> None) = (lookup_path (split_on CHR ''.'' name) m \<noteq> None)"
proof -
  let ?segs = "split_on CHR ''.'' name"
  have ne: "?segs \<noteq> []" by simp
  show ?thesis
  proof (cases "lookup_path ?segs m")
    case None
    with lookupField_loop_read [OF ne, of m Nil]
    have "lookupField_loop False ?segs (Some m) Nil = None" by simp
    with None show ?thesis by (simp add: lookupField_def)
  next
    case (Some v)
    with lookupField_loop_read [OF ne, of m Nil] obtain r p i
      where "lookupField_loop False ?segs (Some m) Nil = Some (r, p, Some i, v)" by auto
    with Some show ?thesis by (simp add: lookupField_def)
  qed
qed

lemma Has_eq:
  assumes "mustInitFields c d = Inr d'"
  shows "Has c name d = Inr (lookup_path (split_on CHR ''.'' name) (field_map d') \<noteq> None, d')"
proof -
  from lookupField_read [of name "field_map d'"] obtain root path inner fieldName v where
    "lookupField name (field_map d') False = (root, path, inner, v, fieldName)"
    "(inner \<noteq> None) = (lookup_path (split_on CHR ''.'' name) (field_map d') \<noteq> None)"
    by blast
  with assms show ?thesis by (simp add: Has_def)
qed

lemma Get_eq:
  assumes "mustInitFields c d = Inr d'"
  shows "Get c name d =
     Inr (case lookup_path (split_on CHR ''.'' name) (field_map d') of
            None \<Rightarrow> Nil | Some v \<Rightarrow> v, d')"
proof -
  from lookupField_read [of name "field_map d'"] obtain root path inner fieldName where
    "lookupField name (field_map d') False =
       (root, path, inner,
        (case lookup_path (split_on CHR ''.'' name) (field_map d') of None \<Rightarrow> Nil | Some v \<Rightarrow> v),
        fieldName)"
    by blast
  with assms show ?thesis by (simp add: Get_def)
qed

lemma initFields_materialized: "fields d = Some m \<Longrightarrow> initFields c d = Inr d"
  by (simp add: initFields_def)

lemma mustInitFields_materialized: "fields d = Some m \<Longrightarrow> mustInitFields c d = Inr d"
  by (simp add: mustInitFields_def initFields_materialized)

lemma initFields_result:
  "initFields c d = Inr d' \<Longrightarrow> msg d' = msg d \<and> (\<exists>m. fields d' = Some m)"
  by (cases d)
     (auto simp: initFields_def split: if_splits option.splits sum.splits failure.splits gval.splits)

lemma mustInitFields_Inr: "mustInitFields c d = Inr d' \<longleftrightarrow> initFields c d = Inr d'"
  by (auto simp: mustInitFields_def split: sum.splits failure.splits)

lemma lookupField_loop_write:
  "segs \<noteq> [] \<Longrightarrow>
   \<exists>root inner f. lookupField_loop True segs (Some m) f0 = Some (Some root, butlast segs, Some inner, f)
      \<and> assign_at root (butlast segs) (last segs) v = set_path segs v m"
proof (induction segs v m arbitrary: f0 rule: set_path.induct)
  case (1 v m)
  then show ?case by simp
next
  case (2 k v m)
  show ?case by (auto split: option.splits gval.splits)
next
  case (3 k k' ks v m)
  let ?sub = "case map_of m k of Some (Object sub) \<Rightarrow> sub | _ \<Rightarrow> []"
  let ?f = "case map_of m k of Some (Object sub) \<Rightarrow> Object sub | _ \<Rightarrow> Object []"
  have step: "lookupField_loop True (k # k' # ks) (Some m) f0 =
        (case lookupField_loop True (k' # ks) (Some ?sub) ?f of
           None \<Rightarrow> None
         | Some (m', path, inner, f') \<Rightarrow> Some (store (Some m) k m', k # path, inner, f'))"
    by (auto split: option.splits gval.splits)
  from "3.IH" [of ?f] obtain root inner f where
    loop: "lookupField_loop True (k' # ks) (Some ?sub) ?f
             = Some (Some root, butlast (k' # ks), Some inner, f)"
    and asg: "assign_at root (butlast (k' # ks)) (last (k' # ks)) v = set_path (k' # ks) v ?sub"
    by auto
  have "lookupField_loop True (k # k' # ks) (Some m) f0 =
          Some (Some (AList.update k (Object root) m), butlast (k # k' # ks), Some inner, f)"
    using step loop by (simp add: store_def)
  moreover have "assign_at (AList.update k (Object root) m) (butlast (k # k' # ks))
                   (last (k # k' # ks)) v = set_path (k # k' # ks) v m"
    using asg by (simp add: update_conv)
  ultimately show ?case by blast
qed

lemma lookup_set_path: "segs \<noteq> [] \<Longrightarrow> lookup_path segs (set_path segs v m) = Some v"
  by (induction segs v m rule: set_path.induct) (simp_all add: update_conv)


lemma lookupField_write:
  "\<exists>root inner f.
     lookupField name m True =
       (root, butlast (split_on CHR ''.'' name), Some inner, f, last (split_on CHR ''.'' name)) \<and>
     assign_at root (butlast (split_on CHR ''.'' name)) (last (split_on CHR ''.'' name)) v
       = set_path (split_on CHR ''.'' name) v m"
proof -
  let ?segs = "split_on CHR ''.'' name"
  have "?segs \<noteq> []" by simp
  from lookupField_loop_write [OF this, of m Nil v] obtain root inner f where
    "lookupField_loop True ?segs (Some m) Nil = Some (Some root, butlast ?segs, Some inner, f)"
    "assign_at root (butlast ?segs) (last ?segs) v = set_path ?segs v m"
    by blast
  then show ?thesis by (simp add: lookupField_def Let_def)
qed

lemma Set_applied:
  assumes "mustInitFields c d = Inr d0" and "Normalize value = Inr nv"
  shows "Set c name value d =
     (case marshal c (Object (set_path (split_on CHR ''.'' name) nv (field_map d0))) of
        Inl err \<Rightarrow> Inl (Panic (PanicError err))
      | Inr b \<Rightarrow>
          Inr (Document (Some b) (Some (set_path (split_on CHR ''.'' name) nv (field_map d0)))))"
proof -
  from lookupField_write [of name "field_map d0" nv] obtain root inner f where
    "lookupField name (field_map d0) True =
       (root, butlast (split_on CHR ''.'' name), Some inner, f, last (split_on CHR ''.'' name))"
    "assign_at root (butlast (split_on CHR ''.'' name)) (last (split_on CHR ''.'' name)) nv
       = set_path (split_on CHR ''.'' name) nv (field_map d0)"
    by blast
  with assms show ?thesis by (simp add: Set_def Let_def split: sum.splits)
qed

lemma Set_ignored:
  assumes "mustInitFields c d = Inr d0" and "Normalize value = Inl (Error err)"
  shows "Set c name value d = Inr d0"
  using assms by (simp add: Set_def)


text \<open>
  C4. \<^verbatim>\<open>Set\<close> with a value that normalizes, on a document that materializes, with a
  codec that encodes the new field map: the new field map is the old one with the
  path set as the specification says (missing or non-map intermediate segments
  created as empty maps, the leaf assigned); \<^verbatim>\<open>Get\<close> of the same path then returns the
  normalized value, and \<^verbatim>\<open>Get\<close> of any path that the field map does not hold returns
  nil without error. On the empty document, \<^verbatim>\<open>Set("a.b.c", 5)\<close> gives
  \<^verbatim>\<open>{"a": {"b": {"c": 5}}}\<close>, \<^verbatim>\<open>Get("a.b.c")\<close> gives 5 and \<^verbatim>\<open>Get("a.b.x")\<close> nil.
\<close>

theorem set_then_get:
  assumes "mustInitFields c d = Inr d0"
    and "Normalize value = Inr nv"
    and "marshal c (Object (set_path (split_on CHR ''.'' name) nv (field_map d0))) = Inr b"
    and "d' = Document (Some b) (Some (set_path (split_on CHR ''.'' name) nv (field_map d0)))"
  shows "Set c name value d = Inr d' \<and>
         Get c name d' = Inr (nv, d') \<and>
         Has c name d' = Inr (True, d') \<and>
         (lookup_path (split_on CHR ''.'' other) (field_map d') = None \<longrightarrow>
            Get c other d' = Inr (Nil, d') \<and> Has c other d' = Inr (False, d'))"
proof -
  have init: "mustInitFields c d' = Inr d'"
    using assms(4) by (simp add: mustInitFields_materialized)
  have fm: "field_map d' = set_path (split_on CHR ''.'' name) nv (field_map d0)"
    using assms(4) by (simp add: field_map_def)
  have found: "lookup_path (split_on CHR ''.'' name) (field_map d') = Some nv"
    by (simp add: fm lookup_set_path)
  have "Set c name value d = Inr d'"
    using Set_applied [OF assms(1,2), of name] assms(3,4) by simp
  moreover have "Get c name d' = Inr (nv, d')"
    using Get_eq [OF init, of name] found by simp
  moreover have "Has c name d' = Inr (True, d')"
    using Has_eq [OF init, of name] found by simp
  moreover have "lookup_path (split_on CHR ''.'' other) (field_map d') = None \<longrightarrow>
      Get c other d' = Inr (Nil, d') \<and> Has c other d' = Inr (False, d')"
    using Get_eq [OF init, of other] Has_eq [OF init, of other] by simp
  ultimately show ?thesis by blast
qed

theorem set_then_get_witness:
  "mustInitFields example_codec NewDocument = Inr (Document None (Some [])) \<and>
   Normalize (IntV IntT 5) = Inr (IntV Int64T 5) \<and>
   Set example_codec ''a.b.c'' (IntV IntT 5) NewDocument =
     Inr (Document (Some [0x81, 0xA1, 0x61, 0x81, 0xA1, 0x62, 0x81, 0xA1, 0x63, 0x05])
            (Some [(''a'', Object [(''b'', Object [(''c'', IntV Int64T 5)])])])) \<and>
   Get example_codec ''a.b.c''
       (Document (Some [0x81, 0xA1, 0x61, 0x81, 0xA1, 0x62, 0x81, 0xA1, 0x63, 0x05])
            (Some [(''a'', Object [(''b'', Object [(''c'', IntV Int64T 5)])])])) =
     Inr (IntV Int64T 5,
          Document (Some [0x81, 0xA1, 0x61, 0x81, 0xA1, 0x62, 0x81, 0xA1, 0x63, 0x05])
            (Some [(''a'', Object [(''b'', Object [(''c'', IntV Int64T 5)])])])) \<and>
   Get example_codec ''a.b.x''
       (Document (Some [0x81, 0xA1, 0x61, 0x81, 0xA1, 0x62, 0x81, 0xA1, 0x63, 0x05])
            (Some [(''a'', Object [(''b'', Object [(''c'', IntV Int64T 5)])])])) =
     Inr (Nil,
          Document (Some [0x81, 0xA1, 0x61, 0x81, 0xA1, 0x62, 0x81, 0xA1, 0x63, 0x05])
            (Some [(''a'', Object [(''b'', Object [(''c'', IntV Int64T 5)])])])) \<and>
   Has example_codec ''a.b.x''
       (Document (Some [0x81, 0xA1, 0x61, 0x81, 0xA1, 0x62, 0x81, 0xA1, 0x63, 0x05])
            (Some [(''a'', Object [(''b'', Object [(''c'', IntV Int64T 5)])])])) =
     Inr (False,
          Document (Some [0x81, 0xA1, 0x61, 0x81, 0xA1, 0x62, 0x81, 0xA1, 0x63, 0x05])
            (Some [(''a'', Object [(''b'', Object [(''c'', IntV Int64T 5)])])]))"
  using set_then_get [of example_codec NewDocument "Document None (Some [])"
          "IntV IntT 5" "IntV Int64T 5" "''a.b.c''"
          "[0x81, 0xA1, 0x61, 0x81, 0xA1, 0x62, 0x81, 0xA1, 0x63, 0x05]"
          "Document (Some [0x81, 0xA1, 0x61, 0x81, 0xA1, 0x62, 0x81, 0xA1, 0x63, 0x05])
            (Some [(''a'', Object [(''b'', Object [(''c'', IntV Int64T 5)])])])"
          "''a.b.x''"]
  by code_simp


text \<open>
  C3 as stated fails: \<^verbatim>\<open>Set\<close> materializes the document before it normalizes the
  value, and on a document whose bytes do not decode it panics, whatever the value.
\<close>

theorem set_panics_on_undecodable_document_counterexample:
  "Normalize (Other FuncT) = Inl (Error InvalidDtype) \<and>
   Set example_codec ''a'' (Other FuncT) (Decode (Some [])) =
     Inl (Panic (PanicError (Wrapped ''unmarshal'' (External 1))))"
  by code_simp

text \<open>
  C3, amended. On a document that materializes, when \<^verbatim>\<open>Normalize\<close> returns an error
  \<^verbatim>\<open>Set\<close> returns normally and leaves the document as materialization alone leaves
  it: the same bytes, the same field map, and the very same document when it was
  materialized already.
\<close>

theorem set_ignores_failed_normalization:
  assumes "initFields c d = Inr d0" and "Normalize value = Inl (Error err)"
  shows "Set c name value d = Inr d0 \<and>
         msg d0 = msg d \<and>
         materialized c d0 = materialized c d \<and>
         (if fields d = None then fields d0 \<noteq> None else d0 = d)"
proof -
  from assms(1) have must: "mustInitFields c d = Inr d0"
    by (simp add: mustInitFields_Inr)
  from initFields_result [OF assms(1)] obtain m where
    m: "msg d0 = msg d" "fields d0 = Some m" by blast
  have "materialized c d0 = Inr (field_map d0)"
    using m by (simp add: materialized_def initFields_materialized)
  moreover have "materialized c d = Inr (field_map d0)"
    using assms(1) by (simp add: materialized_def)
  moreover have "if fields d = None then fields d0 \<noteq> None else d0 = d"
    using assms(1) m by (auto simp: initFields_def)
  ultimately show ?thesis
    using Set_ignored [OF must assms(2)] m by simp
qed

theorem set_ignores_failed_normalization_witness:
  "initFields example_codec (Decode (Some [0x80])) = Inr (Document (Some [0x80]) (Some [])) \<and>
   Normalize (Other FuncT) = Inl (Error InvalidDtype) \<and>
   Set example_codec ''a.b'' (Other FuncT) (Decode (Some [0x80]))
     = Inr (Document (Some [0x80]) (Some [])) \<and>
   materialized example_codec (Decode (Some [0x80])) = Inr []"
  using set_ignores_failed_normalization [of example_codec "Decode (Some [0x80])"
          "Document (Some [0x80]) (Some [])" "Other FuncT" InvalidDtype "''a.b''"]
  by code_simp

text \<open>
  C8 as stated fails: \<^verbatim>\<open>Has\<close> is true for a path that is present with a nil value and
  false for a path that is absent.
\<close>

theorem has_tells_null_from_absent_counterexample:
  "Set example_codec ''a'' Nil NewDocument =
     Inr (Document (Some [0x81, 0xA1, 0x61, 0xC0]) (Some [(''a'', Nil)])) \<and>
   Has example_codec ''a'' (Document (Some [0x81, 0xA1, 0x61, 0xC0]) (Some [(''a'', Nil)])) =
     Inr (True, Document (Some [0x81, 0xA1, 0x61, 0xC0]) (Some [(''a'', Nil)])) \<and>
   Has example_codec ''a'' NewDocument = Inr (False, Document None (Some []))"
  by code_simp

text \<open>
  C8, amended. \<^verbatim>\<open>Has\<close> tells whether the traversal finds an entry for the whole path,
  whatever its value; it is \<^verbatim>\<open>Get\<close> that returns nil both for an entry that holds nil
  and for a path that is absent.
\<close>

theorem has_is_path_presence:
  assumes "mustInitFields c d = Inr d'"
  shows "Has c name d = Inr (lookup_path (split_on CHR ''.'' name) (field_map d') \<noteq> None, d') \<and>
         Get c name d =
           Inr (case lookup_path (split_on CHR ''.'' name) (field_map d') of
                  None \<Rightarrow> Nil | Some v \<Rightarrow> v, d')"
  using Has_eq [OF assms, of name] Get_eq [OF assms, of name] by simp

theorem has_is_path_presence_witness:
  "mustInitFields example_codec (Decode (Some [0x81, 0xA1, 0x61, 0xC0])) =
     Inr (Document (Some [0x81, 0xA1, 0x61, 0xC0]) (Some [(''a'', Nil)])) \<and>
   Has example_codec ''a'' (Decode (Some [0x81, 0xA1, 0x61, 0xC0])) =
     Inr (True, Document (Some [0x81, 0xA1, 0x61, 0xC0]) (Some [(''a'', Nil)])) \<and>
   Get example_codec ''a'' (Decode (Some [0x81, 0xA1, 0x61, 0xC0])) =
     Inr (Nil, Document (Some [0x81, 0xA1, 0x61, 0xC0]) (Some [(''a'', Nil)])) \<and>
   Has example_codec ''b'' (Decode (Some [0x81, 0xA1, 0x61, 0xC0])) =
     Inr (False, Document (Some [0x81, 0xA1, 0x61, 0xC0]) (Some [(''a'', Nil)])) \<and>
   Get example_codec ''b'' (Decode (Some [0x81, 0xA1, 0x61, 0xC0])) =
     Inr (Nil, Document (Some [0x81, 0xA1, 0x61, 0xC0]) (Some [(''a'', Nil)]))"
  using has_is_path_presence [of example_codec "Decode (Some [0x81, 0xA1, 0x61, 0xC0])"
          "Document (Some [0x81, 0xA1, 0x61, 0xC0]) (Some [(''a'', Nil)])" "''a''"]
  by code_simp


text \<open>
  Every unmodified document is in sync, and a document in sync comes back from
  \<^verbatim>\<open>Decode(Encode(d))\<close> with the same field map. A document that \<^verbatim>\<open>Set\<close> has built holds
  the field map \<^verbatim>\<open>Set\<close> assigned into and the bytes \<^verbatim>\<open>marshal\<close> made of it.
\<close>

lemma in_sync_unmaterialized: "fields d = None \<Longrightarrow> in_sync c d"
  by (simp add: in_sync_def)

lemma in_sync_initFields:
  assumes "initFields c d = Inr d'" and "in_sync c d"
  shows "in_sync c d'"
proof (cases "fields d")
  case None
  then have d: "d = Document (msg d) None" by (cases d) simp
  from initFields_result [OF assms(1)] obtain m where
    m: "msg d' = msg d" "fields d' = Some m" by blast
  have "materialized c (Document (msg d) None) = Inr m"
    using assms(1) d m by (simp add: materialized_def field_map_def)
  with m show ?thesis by (simp add: in_sync_def)
next
  case (Some m)
  with assms show ?thesis by (simp add: initFields_materialized)
qed

lemma in_sync_Set_ignored:
  assumes "Normalize value = Inl (Error err)" and "Set c name value d = Inr d'"
    and "in_sync c d"
  shows "in_sync c d'"
proof -
  from assms(2) obtain d0 where must: "mustInitFields c d = Inr d0"
    by (auto simp: Set_def split: sum.splits)
  from Set_ignored [OF must assms(1), of name] assms(2) have "d' = d0" by simp
  with must assms(3) show ?thesis
    by (auto simp: mustInitFields_Inr intro: in_sync_initFields)
qed

lemma unmodified_in_sync: "unmodified c d \<Longrightarrow> in_sync c d"
proof (induction rule: unmodified.induct)
  case new
  show ?case by (simp add: in_sync_unmaterialized NewDocument_def)
next
  case (decoded data)
  show ?case by (simp add: in_sync_unmaterialized Decode_def)
next
  case (init d d')
  then show ?case by (blast intro: in_sync_initFields)
next
  case (set_ignored d "value" err name d')
  then show ?case by (blast intro: in_sync_Set_ignored)
qed

lemma in_sync_round_trip:
  assumes "in_sync c d"
  shows "materialized c (Decode (Encode d)) = materialized c d"
proof (cases "fields d")
  case None
  then have "Document (msg d) None = d" by (cases d) simp
  then show ?thesis by (simp add: Decode_def Encode_def)
next
  case (Some m)
  then have "materialized c d = Inr m"
    by (simp add: materialized_def initFields_materialized field_map_def)
  with assms Some show ?thesis by (simp add: in_sync_def Decode_def Encode_def)
qed

lemma Set_built:
  assumes "Normalize value = Inr nv" and "Set c name value d0 = Inr d'"
  shows "\<exists>b m. marshal c (Object m) = Inr b \<and> d' = Document (Some b) (Some m)"
proof -
  from assms(2) obtain d1 where must: "mustInitFields c d0 = Inr d1"
    by (auto simp: Set_def split: sum.splits)
  from Set_applied [OF must assms(1), of name] assms(2) show ?thesis
    by (auto split: sum.splits)
qed

lemma Set_built_round_trip:
  assumes "marshal c (Object m) = Inr b" and "d' = Document (Some b) (Some m)"
  shows "materialized c d' = Inr m"
    and "materialized c (Decode (Encode d')) = materialized c (Decode (Some b))"
    and "(materialized c (Decode (Encode d')) = materialized c d') = round_trips c (field_map d')"
proof -
  show m: "materialized c d' = Inr m"
    using assms(2) by (simp add: materialized_def initFields_materialized field_map_def)
  show e: "materialized c (Decode (Encode d')) = materialized c (Decode (Some b))"
    using assms(2) by (simp add: Encode_def)
  show "(materialized c (Decode (Encode d')) = materialized c d') = round_trips c (field_map d')"
    unfolding m e using assms by (simp add: round_trips_def field_map_def)
qed

lemma example_unmodified:
  "unmodified example_codec (Document (Some [0x81, 0xA1, 0x61, 0xC0]) (Some [(''a'', Nil)]))"
proof (rule unmodified.init [OF unmodified.decoded, of _ "Some [0x81, 0xA1, 0x61, 0xC0]"])
  show "initFields example_codec (Decode (Some [0x81, 0xA1, 0x61, 0xC0])) =
          Inr (Document (Some [0x81, 0xA1, 0x61, 0xC0]) (Some [(''a'', Nil)]))"
    by code_simp
qed

lemma example_Set:
  "Normalize (IntV IntT 5) = Inr (IntV Int64T 5) \<and>
   Set example_codec ''a.b.c'' (IntV IntT 5) NewDocument =
     Inr (Document (Some [0x81, 0xA1, 0x61, 0x81, 0xA1, 0x62, 0x81, 0xA1, 0x63, 0x05])
            (Some [(''a'', Object [(''b'', Object [(''c'', IntV Int64T 5)])])])) \<and>
   round_trips example_codec
     (field_map
        (Document (Some [0x81, 0xA1, 0x61, 0x81, 0xA1, 0x62, 0x81, 0xA1, 0x63, 0x05])
           (Some [(''a'', Object [(''b'', Object [(''c'', IntV Int64T 5)])])])))"
  by code_simp

text \<open>
  Whatever a decoder makes of the bytes: a codec that writes the \<^verbatim>\<open>uint64\<close> 5 and the
  \<^verbatim>\<open>int64\<close> 5 to the same bytes cannot round-trip both.
\<close>

lemma compact_ints_cannot_round_trip:
  assumes "marshal c (Object [(''a'', UintV Uint64T 5)]) = Inr b"
    and "marshal c (Object [(''a'', IntV Int64T 5)]) = Inr b"
  shows "\<not> (round_trips c [(''a'', UintV Uint64T 5)] \<and> round_trips c [(''a'', IntV Int64T 5)])"
  using assms by (auto simp: round_trips_def)

text \<open>
  C1 as stated fails: with compact integers the 5 that \<^verbatim>\<open>Set\<close> stores as a \<^verbatim>\<open>uint64\<close> is
  encoded as the byte \<^verbatim>\<open>0x05\<close> and decodes as an \<^verbatim>\<open>int64\<close>, so \<^verbatim>\<open>Decode(Encode(d))\<close>
  materializes to a field map that differs from the one \<open>d\<close> holds.
\<close>

theorem round_trip_loses_unsigned_counterexample:
  "Set compact_int_codec ''a'' (UintV UintT 5) NewDocument =
     Inr (Document (Some [0x81, 0xA1, 0x61, 0x05]) (Some [(''a'', UintV Uint64T 5)])) \<and>
   materialized compact_int_codec
     (Document (Some [0x81, 0xA1, 0x61, 0x05]) (Some [(''a'', UintV Uint64T 5)])) =
     Inr [(''a'', UintV Uint64T 5)] \<and>
   materialized compact_int_codec
     (Decode (Encode (Document (Some [0x81, 0xA1, 0x61, 0x05]) (Some [(''a'', UintV Uint64T 5)])))) =
     Inr [(''a'', IntV Int64T 5)]"
  by code_simp

text \<open>
  C1, amended. \<^verbatim>\<open>Encode\<close> returns the cached bytes as they are, and \<^verbatim>\<open>Decode\<close> stores
  the bytes it is given and nothing else (no field map is built, nothing is
  validated), so \<^verbatim>\<open>Decode(Encode(d))\<close> is \<open>d\<close> without its field map. For an unmodified
  document it materializes to the field map that \<open>d\<close> materializes to. For a
  document that \<^verbatim>\<open>Set\<close> has built it materializes to what the codec and the normalizer
  make of the bytes \<^verbatim>\<open>Set\<close> encoded the field map to, which is the document's field
  map exactly when the codec round-trips that field map.
\<close>

theorem decode_encode_round_trip:
  "Encode d = msg d \<and>
   Decode data = Document data None \<and>
   Decode (Encode d) = Document (msg d) None \<and>
   (unmodified c d \<longrightarrow> materialized c (Decode (Encode d)) = materialized c d) \<and>
   (Normalize v = Inr nv \<and> Set c name v d0 = Inr d' \<longrightarrow>
      (\<exists>b m. marshal c (Object m) = Inr b \<and> d' = Document (Some b) (Some m) \<and>
             materialized c d' = Inr m \<and>
             materialized c (Decode (Encode d')) = materialized c (Decode (Some b))) \<and>
      (materialized c (Decode (Encode d')) = materialized c d') = round_trips c (field_map d'))"
proof (intro conjI impI)
  show "Encode d = msg d" by (simp add: Encode_def)
  show "Decode data = Document data None" by (simp add: Decode_def)
  show "Decode (Encode d) = Document (msg d) None" by (simp add: Decode_def Encode_def)
next
  assume "unmodified c d"
  then show "materialized c (Decode (Encode d)) = materialized c d"
    by (intro in_sync_round_trip unmodified_in_sync)
next
  assume a: "Normalize v = Inr nv \<and> Set c name v d0 = Inr d'"
  then obtain b m where bm: "marshal c (Object m) = Inr b" "d' = Document (Some b) (Some m)"
    using Set_built by blast
  from Set_built_round_trip(1,2) [OF bm] bm
  show "\<exists>b m. marshal c (Object m) = Inr b \<and> d' = Document (Some b) (Some m) \<and>
             materialized c d' = Inr m \<and>
             materialized c (Decode (Encode d')) = materialized c (Decode (Some b))"
    by blast
  from Set_built_round_trip(3) [OF bm]
  show "(materialized c (Decode (Encode d')) = materialized c d') = round_trips c (field_map d')" .
qed

theorem decode_encode_round_trip_witness:
  "unmodified example_codec (Document (Some [0x81, 0xA1, 0x61, 0xC0]) (Some [(''a'', Nil)])) \<and>
   materialized example_codec
     (Decode (Encode (Document (Some [0x81, 0xA1, 0x61, 0xC0]) (Some [(''a'', Nil)])))) =
     materialized example_codec (Document (Some [0x81, 0xA1, 0x61, 0xC0]) (Some [(''a'', Nil)])) \<and>
   Normalize (IntV IntT 5) = Inr (IntV Int64T 5) \<and>
   Set example_codec ''a.b.c'' (IntV IntT 5) NewDocument =
     Inr (Document (Some [0x81, 0xA1, 0x61, 0x81, 0xA1, 0x62, 0x81, 0xA1, 0x63, 0x05])
            (Some [(''a'', Object [(''b'', Object [(''c'', IntV Int64T 5)])])])) \<and>
   (materialized example_codec
      (Decode (Encode
        (Document (Some [0x81, 0xA1, 0x61, 0x81, 0xA1, 0x62, 0x81, 0xA1, 0x63, 0x05])
           (Some [(''a'', Object [(''b'', Object [(''c'', IntV Int64T 5)])])])))) =
    materialized example_codec
      (Document (Some [0x81, 0xA1, 0x61, 0x81, 0xA1, 0x62, 0x81, 0xA1, 0x63, 0x05])
         (Some [(''a'', Object [(''b'', Object [(''c'', IntV Int64T 5)])])]))) =
   round_trips example_codec
     (field_map
        (Document (Some [0x81, 0xA1, 0x61, 0x81, 0xA1, 0x62, 0x81, 0xA1, 0x63, 0x05])
           (Some [(''a'', Object [(''b'', Object [(''c'', IntV Int64T 5)])])]))) \<and>
   materialized example_codec
     (Decode (Encode
       (Document (Some [0x81, 0xA1, 0x61, 0x81, 0xA1, 0x62, 0x81, 0xA1, 0x63, 0x05])
          (Some [(''a'', Object [(''b'', Object [(''c'', IntV Int64T 5)])])])))) =
   materialized example_codec
     (Document (Some [0x81, 0xA1, 0x61, 0x81, 0xA1, 0x62, 0x81, 0xA1, 0x63, 0x05])
        (Some [(''a'', Object [(''b'', Object [(''c'', IntV Int64T 5)])])]))"
  using decode_encode_round_trip
          [where c = example_codec
             and d = "Document (Some [0x81, 0xA1, 0x61, 0xC0]) (Some [(''a'', Nil)])"
             and v = "IntV IntT 5" and nv = "IntV Int64T 5" and name = "''a.b.c''"
             and ?d0.0 = NewDocument
             and d' = "Document (Some [0x81, 0xA1, 0x61, 0x81, 0xA1, 0x62, 0x81, 0xA1, 0x63, 0x05])
                         (Some [(''a'', Object [(''b'', Object [(''c'', IntV Int64T 5)])])])"]
        example_unmodified example_Set
  by blast


section \<open>Properties of the index descriptors\<close>

text \<open>
  C9 as stated fails: an \<^verbatim>\<open>IndexInfo\<close> has no collection name. Were there a way to read
  a collection name off a descriptor, indexes on the same field and of the same
  kind in two collections would need two descriptors, and there is only one.
\<close>

theorem IndexInfo_has_no_collection_counterexample:
  "\<not> (\<exists>coll :: IndexInfo \<Rightarrow> string. \<forall>c f t. \<exists>i. coll i = c \<and> Field i = f \<and> Type i = t)"
proof
  assume "\<exists>coll :: IndexInfo \<Rightarrow> string. \<forall>c f t. \<exists>i. coll i = c \<and> Field i = f \<and> Type i = t"
  then obtain coll :: "IndexInfo \<Rightarrow> string"
    where all: "\<forall>c f t. \<exists>i. coll i = c \<and> Field i = f \<and> Type i = t" ..
  from all obtain i where i: "coll i = ''users''" "Field i = ''name''" "Type i = IndexSingleField"
    by blast
  from all obtain j where j: "coll j = ''orders''" "Field j = ''name''" "Type j = IndexSingleField"
    by blast
  from i j have "i = j" by (cases i, cases j) simp
  with i j show False by simp
qed

text \<open>
  C9, amended. An \<^verbatim>\<open>IndexInfo\<close> carries two pieces of metadata, the field name and
  the index kind, and is determined by them.
\<close>

theorem IndexInfo_two_components:
  "i = IndexInfo (Field i) (Type i) \<and>
   Field (IndexInfo f t) = f \<and> Type (IndexInfo f t) = t"
  by simp

text \<open>
  C10. \<^verbatim>\<open>CreateBadgerIndex\<close> returns nil for the geospatial kind, and for every kind
  but the single-field kind; for the single-field kind it returns an index bound
  to the given collection, field and transaction.
\<close>

theorem CreateBadgerIndex_kinds:
  "CreateBadgerIndex coll fld IndexGeoSpatial tx = None \<and>
   CreateBadgerIndex coll fld IndexSingleField tx
     = Some (BadgerRangeIndex (IndexBase coll fld) tx) \<and>
   (CreateBadgerIndex coll fld idxType tx \<noteq> None) = (idxType = IndexSingleField) \<and>
   Collection (BadgerRangeIndex (IndexBase coll fld) tx) = coll \<and>
   Field_of (BadgerRangeIndex (IndexBase coll fld) tx) = fld \<and>
   txn (BadgerRangeIndex (IndexBase coll fld) tx) = tx"
  by (simp add: CreateBadgerIndex_def IndexGeoSpatial_def IndexSingleField_def
        Collection_def Field_of_def)

end
